theory Spec2Isabelle
  imports Main
begin

section \<open>The installer \<^verbatim>\<open>Setup.py\<close>: data model\<close>

text \<open>
  \<^verbatim>\<open>Setup.py\<close> holds one class, \<^verbatim>\<open>ProjectSetup\<close>, whose methods are the stages of the
  installation. Every method works by side effect: it prints, and it creates directories
  and files below \<^verbatim>\<open>self.base_dir\<close>. The model threads both effects through an explicit
  state, and every exception the source can raise is a value.

  Text is kept as the bytes of its UTF-8 encoding (a \<^typ>\<open>char\<close> is a byte), so a code
  point outside ASCII is written as its bytes. The console and the default file encoding
  are taken to accept every character that is printed or written.
\<close>

subsection \<open>Filesystem below the base directory\<close>

text \<open>
  A path is the list of its components relative to \<^verbatim>\<open>self.base_dir\<close>; the empty path is
  the base directory itself, which exists (it holds the script). The only failures of the
  filesystem that are modelled are the ones decided by what a path currently holds:
  permissions, quotas and the like are outside the model.
\<close>

type_synonym path = "string list"

datatype node = Dir | File string

type_synonym filesystem = "path \<Rightarrow> node option"

datatype exn =
    SystemExit int
  | KeyboardInterrupt
  | NameError string
  | AttributeError string
  | FileExistsError
  | FileNotFoundError
  | NotADirectoryError
  | IsADirectoryError
  | CalledProcessError int "string list"
  | OSError string

record state =
  fs :: filesystem
  stdout :: "string list"

text \<open>A statement either completes, or raises with the effects made so far in place.\<close>

datatype result = Normal state | Abort exn state

fun state_of :: "result \<Rightarrow> state" where
  "state_of (Normal s) = s"
| "state_of (Abort e s) = s"

fun raised :: "result \<Rightarrow> exn option" where
  "raised (Normal s) = None"
| "raised (Abort e s) = Some e"

text \<open>Statements in sequence: the first exception ends the sequence.\<close>

fun seq :: "(state \<Rightarrow> result) list \<Rightarrow> state \<Rightarrow> result" where
  "seq [] s = Normal s"
| "seq (c # cs) s = (case c s of Normal s' \<Rightarrow> seq cs s' | Abort e s' \<Rightarrow> Abort e s')"

definition for_each :: "'a list \<Rightarrow> ('a \<Rightarrow> state \<Rightarrow> result) \<Rightarrow> state \<Rightarrow> result" where
  "for_each xs body = seq (map body xs)"

definition print :: "string \<Rightarrow> state \<Rightarrow> result" where
  "print t s = Normal (s\<lparr>stdout := stdout s @ [t]\<rparr>)"

definition fs_op :: "(filesystem \<Rightarrow> exn + filesystem) \<Rightarrow> state \<Rightarrow> result" where
  "fs_op f s = (case f (fs s) of Inl e \<Rightarrow> Abort e s | Inr g \<Rightarrow> Normal (s\<lparr>fs := g\<rparr>))"

definition node_at :: "filesystem \<Rightarrow> path \<Rightarrow> node option" where
  "node_at g p = (if p = [] then Some Dir else g p)"

text \<open>\<^verbatim>\<open>Path.exists()\<close>: true of a file and of a directory alike.\<close>

definition path_exists :: "filesystem \<Rightarrow> path \<Rightarrow> bool" where
  "path_exists g p = (node_at g p \<noteq> None)"

text \<open>
  \<^verbatim>\<open>Path.mkdir(parents=True, exist_ok=True)\<close>: walking down from the base directory, a
  missing component is created, a directory is kept as it is, and a regular file in the
  way raises (\<^verbatim>\<open>FileExistsError\<close> at the last component, \<^verbatim>\<open>NotADirectoryError\<close> above it).
\<close>

fun mkdir_from :: "path \<Rightarrow> path \<Rightarrow> filesystem \<Rightarrow> exn + filesystem" where
  "mkdir_from pre [] g = Inr g"
| "mkdir_from pre (c # cs) g =
     (case g (pre @ [c]) of
        None \<Rightarrow> mkdir_from (pre @ [c]) cs (g(pre @ [c] \<mapsto> Dir))
      | Some Dir \<Rightarrow> mkdir_from (pre @ [c]) cs g
      | Some (File t) \<Rightarrow> Inl (if cs = [] then FileExistsError else NotADirectoryError))"

definition mkdir :: "path \<Rightarrow> filesystem \<Rightarrow> exn + filesystem" where
  "mkdir p g = mkdir_from [] p g"

text \<open>\<^verbatim>\<open>Path.touch()\<close>: creates an empty file where nothing exists, keeps what exists.\<close>

definition touch :: "path \<Rightarrow> filesystem \<Rightarrow> exn + filesystem" where
  "touch p g =
     (case node_at g (butlast p) of
        None \<Rightarrow> Inl FileNotFoundError
      | Some (File t) \<Rightarrow> Inl NotADirectoryError
      | Some Dir \<Rightarrow> (case node_at g p of None \<Rightarrow> Inr (g(p \<mapsto> File [])) | Some n \<Rightarrow> Inr g))"

text \<open>\<^verbatim>\<open>Path.write_text(t)\<close>: opens for writing, which creates or truncates the file.\<close>

definition write_text :: "path \<Rightarrow> string \<Rightarrow> filesystem \<Rightarrow> exn + filesystem" where
  "write_text p t g =
     (case node_at g (butlast p) of
        None \<Rightarrow> Inl FileNotFoundError
      | Some (File u) \<Rightarrow> Inl NotADirectoryError
      | Some Dir \<Rightarrow> (case node_at g p of Some Dir \<Rightarrow> Inl IsADirectoryError | _ \<Rightarrow> Inr (g(p \<mapsto> File t))))"

subsection \<open>Strings\<close>

definition newline :: char where
  "newline = CHR 0x0A"

text \<open>A text given by its lines, each one ended by a newline.\<close>

definition lines_nl :: "string list \<Rightarrow> string" where
  "lines_nl ls = concat (map (\<lambda>l. l @ [newline]) ls)"

text \<open>\<^verbatim>\<open>sep.join(xs)\<close>\<close>

fun join :: "string \<Rightarrow> string list \<Rightarrow> string" where
  "join sep [] = []"
| "join sep [x] = x"
| "join sep (x # y # ys) = x @ sep @ join sep (y # ys)"

text \<open>\<^verbatim>\<open>s.split(c)\<close> for a one-character separator.\<close>

fun split_on :: "char \<Rightarrow> string \<Rightarrow> string list" where
  "split_on c [] = [[]]"
| "split_on c (x # xs) =
     (if x = c then [] # split_on c xs
      else (case split_on c xs of [] \<Rightarrow> [[x]] | w # ws \<Rightarrow> (x # w) # ws))"

text \<open>
  The components of a relative path written with slashes, as \<^verbatim>\<open>self.base_dir / name\<close>
  resolves it: empty components and \<^verbatim>\<open>.\<close> are dropped.
\<close>

definition parts :: "string \<Rightarrow> path" where
  "parts name = filter (\<lambda>w. w \<noteq> [] \<and> w \<noteq> ''.'') (split_on CHR ''/'' name)"

definition digit :: "nat \<Rightarrow> char" where
  "digit d = ''0123456789'' ! d"

fun str_nat :: "nat \<Rightarrow> string" where
  "str_nat n = (if n < 10 then [digit n] else str_nat (n div 10) @ [digit (n mod 10)])"

definition str_int :: "int \<Rightarrow> string" where
  "str_int i = (if i < 0 then ''-'' @ str_nat (nat (- i)) else str_nat (nat i))"

subsection \<open>Formatted string literals\<close>

text \<open>
  An f-string is a sequence of literal pieces and replacement fields. All fields of the
  script have the form \<^verbatim>\<open>{name.attribute}\<close>; a doubled brace is a literal brace. The
  fields are evaluated from left to right when the string is built, in the scope of the
  method that holds the literal: a name bound nowhere raises \<^verbatim>\<open>NameError\<close>.
\<close>

datatype fpart = Lit string | Field string string

type_synonym scope = "string \<Rightarrow> (string \<Rightarrow> string option) option"

fun render :: "scope \<Rightarrow> fpart list \<Rightarrow> exn + string" where
  "render sc [] = Inr []"
| "render sc (Lit t # ps) = (case render sc ps of Inl e \<Rightarrow> Inl e | Inr r \<Rightarrow> Inr (t @ r))"
| "render sc (Field x a # ps) =
     (case sc x of
        None \<Rightarrow> Inl (NameError x)
      | Some obj \<Rightarrow>
          (case obj a of
             None \<Rightarrow> Inl (AttributeError a)
           | Some v \<Rightarrow> (case render sc ps of Inl e \<Rightarrow> Inl e | Inr r \<Rightarrow> Inr (v @ r))))"

section \<open>The class \<^verbatim>\<open>ProjectSetup\<close>\<close>

subsection \<open>Attributes set by \<^verbatim>\<open>__init__\<close>\<close>

definition project_name :: string where
  "project_name = ''KPUDataExtractor''"

definition version :: string where
  "version = ''5.0.0''"

definition author :: string where
  "author = ''System Admin''"

definition requirements :: "string list" where
  "requirements =
     [''requests>=2.31.0'',
      ''colorama>=0.4.6'',
      ''tqdm>=4.66.1'',
      ''pandas>=2.0.3'',
      ''openpyxl>=3.1.2'',
      ''python-dotenv>=1.0.0'',
      ''PyInquirer>=1.0.3'',
      ''tabulate>=0.9.0'']"

text \<open>The string-valued attributes of \<^verbatim>\<open>self\<close>, as a replacement field reads them.\<close>

definition self_attrs :: "string \<Rightarrow> string option" where
  "self_attrs =
     map_of [(''project_name'', project_name), (''version'', version), (''author'', author)]"

subsection \<open>Names in scope\<close>

text \<open>
  The names bound at module level: the imports of lines 10 to 14 and the class. The
  source has no \<^verbatim>\<open>import json\<close>. No name that the methods look up is a builtin, so the
  builtins are not listed.
\<close>

definition module_globals :: "string list" where
  "module_globals = [''os'', ''sys'', ''subprocess'', ''platform'', ''Path'', ''ProjectSetup'']"

text \<open>
  The scope of a method body with the given local names. Only the attributes of
  \<^verbatim>\<open>self\<close> are modelled; no replacement field reads an attribute of another bound name.
\<close>

definition method_scope :: "string list \<Rightarrow> scope" where
  "method_scope locals x =
     (if x = ''self'' then Some self_attrs
      else if x \<in> set locals \<or> x \<in> set module_globals then Some Map.empty
      else None)"

definition raise :: "exn \<Rightarrow> state \<Rightarrow> result" where
  "raise e s = Abort e s"

text \<open>Building an f-string, then going on with its value.\<close>

definition with_fstring ::
  "scope \<Rightarrow> fpart list \<Rightarrow> (string \<Rightarrow> state \<Rightarrow> result) \<Rightarrow> state \<Rightarrow> result" where
  "with_fstring sc ps k s = (case render sc ps of Inl e \<Rightarrow> Abort e s | Inr t \<Rightarrow> k t s)"

subsection \<open>Glyphs outside ASCII, as UTF-8\<close>

definition check_mark :: string where
  "check_mark = [CHR 0xE2, CHR 0x9C, CHR 0x85]"

definition cross_mark :: string where
  "cross_mark = [CHR 0xE2, CHR 0x9D, CHR 0x8C]"

definition folder_glyph :: string where
  "folder_glyph = [CHR 0xF0, CHR 0x9F, CHR 0x93, CHR 0x81]"

definition page_glyph :: string where
  "page_glyph = [CHR 0xF0, CHR 0x9F, CHR 0x93, CHR 0x84]"

definition warning_sign :: string where
  "warning_sign = [CHR 0xE2, CHR 0x9A, CHR 0xA0]"

definition variation_selector :: string where
  "variation_selector = [CHR 0xEF, CHR 0xB8, CHR 0x8F]"

definition broom_glyph :: string where
  "broom_glyph = [CHR 0xF0, CHR 0x9F, CHR 0xA7, CHR 0xB9]"

definition rocket_glyph :: string where
  "rocket_glyph = [CHR 0xF0, CHR 0x9F, CHR 0x9A, CHR 0x80]"

definition box_top_left :: string where
  "box_top_left = [CHR 0xE2, CHR 0x95, CHR 0x94]"

definition box_top_right :: string where
  "box_top_right = [CHR 0xE2, CHR 0x95, CHR 0x97]"

definition box_bottom_left :: string where
  "box_bottom_left = [CHR 0xE2, CHR 0x95, CHR 0x9A]"

definition box_bottom_right :: string where
  "box_bottom_right = [CHR 0xE2, CHR 0x95, CHR 0x9D]"

definition box_horizontal :: string where
  "box_horizontal = [CHR 0xE2, CHR 0x95, CHR 0x90]"

definition box_vertical :: string where
  "box_vertical = [CHR 0xE2, CHR 0x95, CHR 0x91]"

subsection \<open>\<^verbatim>\<open>print_banner\<close>\<close>

definition banner :: "fpart list" where
  "banner =
     [Lit (lines_nl
            ['''',
             box_top_left @ concat (replicate 62 box_horizontal) @ box_top_right]
           @ box_vertical @ replicate 20 CHR '' '' @ ''KPU DATA EXTRACTOR v''),
      Field ''self'' ''version'',
      Lit (lines_nl
            [replicate 20 CHR '' '' @ box_vertical,
             box_vertical @ replicate 16 CHR '' '' @ ''Complete Installation Setup''
               @ replicate 19 CHR '' '' @ box_vertical,
             box_bottom_left @ concat (replicate 62 box_horizontal) @ box_bottom_right])]"

definition print_banner :: "state \<Rightarrow> result" where
  "print_banner = with_fstring (method_scope [''self'']) banner print"

subsection \<open>\<^verbatim>\<open>check_python_version\<close>\<close>

text \<open>
  What the run reads from its host: \<^verbatim>\<open>sys.version_info\<close>, \<^verbatim>\<open>sys.executable\<close>, what
  becomes of a child process started with a given command line, the text that \<^verbatim>\<open>str\<close>
  gives for an exception, and the text that the standard library's \<^verbatim>\<open>json.dumps\<close> gives
  with \<^verbatim>\<open>indent=2\<close>. The child process is taken to leave the tree below the base
  directory alone.
\<close>

record version_info =
  major :: int
  minor :: int
  micro :: int
  releaselevel :: string
  serial :: int

datatype proc_outcome = Exited int | NotStarted string

text \<open>The values that the script hands to \<^verbatim>\<open>json.dumps\<close>; an object keeps the order of its keys.\<close>

datatype json = JString string | JInt int | JBool bool | JObject "(string \<times> json) list"

record host =
  sys_version_info :: version_info
  sys_executable :: string
  run_process :: "string list \<Rightarrow> proc_outcome"
  str_exn :: "exn \<Rightarrow> string"
  json_dumps :: "json \<Rightarrow> string"

text \<open>
  \<^verbatim>\<open>sys.version_info < (a, b)\<close>: tuples compare by their first differing element, and a
  tuple that continues past the end of the other one is the greater.
\<close>

definition version_info_lt :: "version_info \<Rightarrow> int \<times> int \<Rightarrow> bool" where
  "version_info_lt v t =
     (if major v \<noteq> fst t then major v < fst t
      else if minor v \<noteq> snd t then minor v < snd t
      else False)"

definition check_python_version :: "host \<Rightarrow> state \<Rightarrow> result" where
  "check_python_version h =
     seq [print ''[1/6] Checking Python version...'',
          (\<lambda>s. if version_info_lt (sys_version_info h) (3, 7)
               then seq [print (cross_mark @ '' Python 3.7 or higher is required!''),
                         raise (SystemExit 1)] s
               else Normal s),
          print (check_mark @ '' Python '' @ str_int (major (sys_version_info h)) @ ''.''
                 @ str_int (minor (sys_version_info h)) @ '' detected'')]"

subsection \<open>\<^verbatim>\<open>create_project_structure\<close>\<close>

definition directories :: "string list" where
  "directories =
     [''src'',
      ''src/core'',
      ''src/api'',
      ''src/database'',
      ''src/utils'',
      ''src/export'',
      ''src/reports'',
      ''data'',
      ''data/raw'',
      ''data/processed'',
      ''data/exports'',
      ''logs'',
      ''config'',
      ''docs'',
      ''tests'',
      ''bin'',
      ''tmp'']"

definition files :: "string list" where
  "files =
     [''src/__init__.py'',
      ''src/core/__init__.py'',
      ''src/api/__init__.py'',
      ''src/database/__init__.py'',
      ''src/utils/__init__.py'',
      ''src/export/__init__.py'',
      ''src/reports/__init__.py'',
      ''config/settings.json'',
      ''config/api_config.json'',
      ''.env.example'',
      ''requirements.txt'',
      ''README.md'',
      ''CHANGELOG.md'',
      ''LICENSE'',
      ''run.py'',
      ''cleanup.py'']"

definition gitignore_content :: string where
  "gitignore_content =
     lines_nl
      [''# Python'',
       ''__pycache__/'',
       ''*.py[cod]'',
       ''*$py.class'',
       ''*.so'',
       ''.Python'',
       ''build/'',
       ''develop-eggs/'',
       ''dist/'',
       ''downloads/'',
       ''eggs/'',
       ''.eggs/'',
       ''lib/'',
       ''lib64/'',
       ''parts/'',
       ''sdist/'',
       ''var/'',
       ''wheels/'',
       ''*.egg-info/'',
       ''.installed.cfg'',
       ''*.egg'',
       '''',
       ''# Project'',
       ''data/exports/*'',
       ''!data/exports/.gitkeep'',
       ''logs/*'',
       ''!logs/.gitkeep'',
       ''tmp/*'',
       ''!tmp/.gitkeep'',
       '''',
       ''# Environment'',
       ''.env'',
       ''.env.local'',
       ''.env.development.local'',
       ''.env.test.local'',
       ''.env.production.local'',
       '''',
       ''# IDE'',
       ''.vscode/'',
       ''.idea/'',
       ''*.swp'',
       ''*.swo'',
       '''',
       ''# OS'',
       ''.DS_Store'',
       ''Thumbs.db'']"

definition create_dir :: "string \<Rightarrow> state \<Rightarrow> result" where
  "create_dir directory =
     seq [fs_op (mkdir (parts directory)),
          print (''  '' @ folder_glyph @ '' Created: '' @ directory)]"

definition create_file :: "string \<Rightarrow> state \<Rightarrow> result" where
  "create_file file s =
     (if \<not> path_exists (fs s) (parts file)
      then seq [fs_op (touch (parts file)),
                print (''  '' @ page_glyph @ '' Created: '' @ file)] s
      else Normal s)"

definition create_project_structure :: "state \<Rightarrow> result" where
  "create_project_structure =
     seq [print (newline # ''[2/6] Creating project structure...''),
          for_each directories create_dir,
          for_each files create_file,
          fs_op (write_text (parts ''.gitignore'') gitignore_content),
          print (''  '' @ page_glyph @ '' Created: .gitignore''),
          print (check_mark @ '' Project structure created successfully!'')]"

subsection \<open>\<^verbatim>\<open>create_config_files\<close>\<close>

definition settings :: json where
  "settings =
     JObject
      [(''app'', JObject
         [(''name'', JString ''KPU Data Extractor''),
          (''version'', JString version),
          (''author'', JString author),
          (''description'', JString ''Complete KPU/KOMINFO Data Extraction Tool'')]),
       (''database'', JObject
         [(''path'', JString ''data/kpu_database.db''),
          (''backup_interval'', JInt 3600),
          (''max_connections'', JInt 10)]),
       (''api'', JObject
         [(''timeout'', JInt 30),
          (''retry_attempts'', JInt 3),
          (''rate_limit'', JInt 10),
          (''user_agent'', JString ''KPU-Data-Extractor/5.0'')]),
       (''export'', JObject
         [(''default_format'', JString ''csv''),
          (''encoding'', JString ''utf-8''),
          (''include_timestamp'', JBool True)]),
       (''logging'', JObject
         [(''level'', JString ''INFO''),
          (''max_size_mb'', JInt 10),
          (''backup_count'', JInt 5)])]"

definition api_config :: json where
  "api_config =
     JObject
      [(''endpoints'', JObject
         [(''dpt_check'', JString ''https://cekdptonline.kpu.go.id''),
          (''pemilu_data'', JString ''https://sirekap-obj.kpu.go.id''),
          (''wilayah'', JString ''https://wilayah-kpu.go.id''),
          (''pilkada'', JString ''https://pilkada2024.kpu.go.id'')]),
       (''headers'', JObject
         [(''Accept'', JString ''application/json, text/plain, */*''),
          (''Accept-Language'', JString ''id-ID,id;q=0.9,en-US;q=0.8,en;q=0.7''),
          (''User-Agent'',
             JString ''Mozilla/5.0 (Windows NT 10.0; Win64; x64) AppleWebKit/537.36'')])]"

definition env_example :: string where
  "env_example =
     lines_nl
      [''# Database Configuration'',
       ''DB_PATH=data/kpu_database.db'',
       ''DB_BACKUP_ENABLED=true'',
       '''',
       ''# API Configuration'',
       ''API_TIMEOUT=30'',
       ''API_RETRY_COUNT=3'',
       ''API_RATE_LIMIT=10'',
       '''',
       ''# Export Configuration'',
       ''EXPORT_FORMAT=csv'',
       ''EXPORT_ENCODING=utf-8'',
       '''',
       ''# Logging Configuration'',
       ''LOG_LEVEL=INFO'',
       ''LOG_MAX_SIZE=10485760'',
       ''LOG_BACKUP_COUNT=5'',
       '''',
       ''# Application Configuration'',
       ''APP_NAME=KPU Data Extractor'',
       ''APP_VERSION=5.0.0'']"

text \<open>
  The call \<^verbatim>\<open>json.dumps(v, indent=2)\<close>: the name \<^verbatim>\<open>json\<close> is looked up in the scope of the
  method first, and the serializer runs only if the name is bound.
\<close>

definition with_json_dumps ::
  "host \<Rightarrow> scope \<Rightarrow> json \<Rightarrow> (string \<Rightarrow> state \<Rightarrow> result) \<Rightarrow> state \<Rightarrow> result" where
  "with_json_dumps h sc v k s =
     (case sc ''json'' of None \<Rightarrow> raise (NameError ''json'') s | Some m \<Rightarrow> k (json_dumps h v) s)"

definition create_config_files :: "host \<Rightarrow> state \<Rightarrow> result" where
  "create_config_files h =
     seq [print (newline # ''[3/6] Creating configuration files...''),
          with_json_dumps h (method_scope [''self'', ''settings'', ''settings_path'']) settings
            (\<lambda>t. fs_op (write_text [''config'', ''settings.json''] t)),
          print (''  '' @ page_glyph @ '' Created: config/settings.json''),
          with_json_dumps h
            (method_scope [''self'', ''settings'', ''settings_path'', ''api_config'',
                           ''api_config_path''])
            api_config
            (\<lambda>t. fs_op (write_text [''config'', ''api_config.json''] t)),
          print (''  '' @ page_glyph @ '' Created: config/api_config.json''),
          fs_op (write_text (parts ''.env.example'') env_example),
          print (''  '' @ page_glyph @ '' Created: .env.example''),
          print (check_mark @ '' Configuration files created!'')]"

subsection \<open>\<^verbatim>\<open>install_dependencies\<close>\<close>

definition req_content :: string where
  "req_content = join [newline] requirements"

definition pip_command :: "host \<Rightarrow> string list" where
  "pip_command h = [sys_executable h, ''-m'', ''pip'', ''install'', ''-r'', ''requirements.txt'']"

text \<open>
  \<^verbatim>\<open>subprocess.check_call(cmd)\<close>: a child that cannot be started raises an \<^verbatim>\<open>OSError\<close>, a
  child that exits with a status other than zero raises \<^verbatim>\<open>CalledProcessError\<close>.
\<close>

definition check_call :: "host \<Rightarrow> string list \<Rightarrow> exn + int" where
  "check_call h cmd =
     (case run_process h cmd of
        NotStarted msg \<Rightarrow> Inl (OSError msg)
      | Exited rc \<Rightarrow> if rc \<noteq> 0 then Inl (CalledProcessError rc cmd) else Inr 0)"

text \<open>\<^verbatim>\<open>try: ... except subprocess.CalledProcessError as e: ...\<close>\<close>

fun try_except_CalledProcessError ::
  "exn + 'a \<Rightarrow> ('a \<Rightarrow> state \<Rightarrow> result) \<Rightarrow> (exn \<Rightarrow> state \<Rightarrow> result) \<Rightarrow> state \<Rightarrow> result" where
  "try_except_CalledProcessError (Inr v) body handler s = body v s"
| "try_except_CalledProcessError (Inl (CalledProcessError rc cmd)) body handler s =
     handler (CalledProcessError rc cmd) s"
| "try_except_CalledProcessError (Inl e) body handler s = raise e s"

definition install_dependencies :: "host \<Rightarrow> state \<Rightarrow> result" where
  "install_dependencies h =
     seq [print (newline # ''[4/6] Installing dependencies...''),
          fs_op (write_text (parts ''requirements.txt'') req_content),
          try_except_CalledProcessError (check_call h (pip_command h))
            (\<lambda>rc. print (check_mark @ '' Dependencies installed successfully!''))
            (\<lambda>e. seq [print (cross_mark @ '' Failed to install dependencies: '' @ str_exn h e),
                      print ''Please install manually: pip install -r requirements.txt''])]"

subsection \<open>\<^verbatim>\<open>create_main_files\<close>\<close>

definition run_py_head :: string where
  "run_py_head =
     lines_nl
      [''#!/usr/bin/env python3'',
       ''# -*- coding: utf-8 -*-'']"

definition run_py_fstring :: "fpart list" where
  "run_py_fstring =
     [Lit (lines_nl
           ['''',
            [CHR 0x22, CHR 0x22, CHR 0x22],
            ''==============================================================='',
            ''    KPU DATA EXTRACTOR - MAIN ENTRY POINT'']
          @ ''    Version: ''),
      Field ''self'' ''version'',
      Lit (lines_nl
           ['''',
            ''==============================================================='',
            [CHR 0x22, CHR 0x22, CHR 0x22],
            '''',
            ''import sys'',
            ''import os'',
            ''from pathlib import Path'',
            '''',
            ''# Add src to Python path'',
            ''project_root = Path(__file__).parent'',
            ''sys.path.insert(0, str(project_root / '' @ [CHR 0x27] @ ''src'' @ [CHR 0x27] @ ''))'',
            '''',
            ''from src.app.main import main'',
            '''',
            ''if __name__ == '' @ [CHR 0x22] @ ''__main__'' @ [CHR 0x22] @ '':'',
            ''    try:'',
            ''        main()'',
            ''    except KeyboardInterrupt:'',
            ''        print('' @ [CHR 0x22, CHR 0x5C] @ ''n'' @ warning_sign @ variation_selector @ ''  Application interrupted by user.'' @ [CHR 0x22] @ '')'',
            ''        sys.exit(0)'',
            ''    except Exception as e:'',
            ''        print(f'' @ [CHR 0x22, CHR 0x5C] @ ''n'' @ cross_mark @ '' Fatal error: {e}'' @ [CHR 0x22] @ '')'',
            ''        sys.exit(1)''])]"

definition cleanup_py_head :: string where
  "cleanup_py_head =
     lines_nl
      [''#!/usr/bin/env python3'',
       ''# -*- coding: utf-8 -*-'']"

definition cleanup_py_fstring :: "fpart list" where
  "cleanup_py_fstring =
     [Lit (lines_nl
           ['''',
            [CHR 0x22, CHR 0x22, CHR 0x22],
            ''Cleanup script for KPU Data Extractor'',
            [CHR 0x22, CHR 0x22, CHR 0x22],
            '''',
            ''import os'',
            ''import shutil'',
            ''from pathlib import Path'',
            '''',
            ''def cleanup():'',
            ''    '' @ [CHR 0x22, CHR 0x22, CHR 0x22] @ ''Clean temporary files and cache'' @ [CHR 0x22, CHR 0x22, CHR 0x22],
            ''    project_root = Path(__file__).parent'',
            ''    '',
            ''    # Directories to clean'',
            ''    temp_dirs = ['',
            ''        project_root / '' @ [CHR 0x27] @ ''__pycache__'' @ [CHR 0x27] @ '','',
            ''        project_root / '' @ [CHR 0x27] @ ''tmp'' @ [CHR 0x27] @ '','',
            ''        project_root / '' @ [CHR 0x27] @ ''logs'' @ [CHR 0x27] @ ''  # Keep logs, just clear contents'',
            ''    ]'',
            ''    '',
            ''    # Files to remove'',
            ''    temp_files = ['',
            ''        project_root / '' @ [CHR 0x27] @ ''.DS_Store'' @ [CHR 0x27] @ '','',
            ''        project_root / '' @ [CHR 0x27] @ ''thumbs.db'' @ [CHR 0x27],
            ''    ]'',
            ''    '',
            ''    print('' @ [CHR 0x22] @ broom_glyph @ '' Cleaning project...'' @ [CHR 0x22] @ '')'',
            ''    '',
            ''    # Clean directories'',
            ''    for dir_path in temp_dirs:'',
            ''        if dir_path.exists():'',
            ''            if dir_path.name == '' @ [CHR 0x27] @ ''logs'' @ [CHR 0x27] @ '':'',
            ''                # Clear log files but keep directory'',
            ''                for file in dir_path.glob('' @ [CHR 0x27] @ ''*.log'' @ [CHR 0x27] @ ''):'',
            ''                    file.unlink()'']
          @ (''                print(f'' @ [CHR 0x22] @ ''  '' @ check_mark @ '' Cleared: '')),
      Field ''dir_path'' ''name'',
      Lit (lines_nl
           [''/'' @ [CHR 0x22] @ '')'',
            ''            else:'',
            ''                shutil.rmtree(dir_path)'']
          @ (''                print(f'' @ [CHR 0x22] @ ''  '' @ check_mark @ '' Removed: '')),
      Field ''dir_path'' ''name'',
      Lit (lines_nl
           [''/'' @ [CHR 0x22] @ '')'',
            ''    '',
            ''    # Remove temp files'',
            ''    for file_path in temp_files:'',
            ''        if file_path.exists():'',
            ''            file_path.unlink()'']
          @ (''            print(f'' @ [CHR 0x22] @ ''  '' @ check_mark @ '' Removed: '')),
      Field ''file_path'' ''name'',
      Lit (lines_nl
           [[CHR 0x22] @ '')'',
            ''    '',
            ''    print('' @ [CHR 0x22] @ check_mark @ '' Cleanup completed!'' @ [CHR 0x22] @ '')'',
            '''',
            ''if __name__ == '' @ [CHR 0x22] @ ''__main__'' @ [CHR 0x22] @ '':'',
            ''    cleanup()''])]"

definition create_main_files :: "state \<Rightarrow> result" where
  "create_main_files =
     seq [print (newline # ''[5/6] Creating main application files...''),
          with_fstring (method_scope [''self'', ''run_py'']) run_py_fstring
            (\<lambda>t. fs_op (write_text (parts ''run.py'') (run_py_head @ t))),
          print (''  '' @ page_glyph @ '' Created: run.py''),
          with_fstring (method_scope [''self'', ''run_py'', ''run_path'', ''cleanup_py''])
            cleanup_py_fstring
            (\<lambda>t. fs_op (write_text (parts ''cleanup.py'') (cleanup_py_head @ t))),
          print (''  '' @ page_glyph @ '' Created: cleanup.py''),
          print (check_mark @ '' Main files created!'')]"

text \<open>The value of \<^verbatim>\<open>run_py\<close> when it is written: the head, then the f-string as built.\<close>

definition run_py :: string where
  "run_py =
     (case render (method_scope [''self'', ''run_py'']) run_py_fstring of
        Inr t \<Rightarrow> run_py_head @ t
      | Inl e \<Rightarrow> [])"

subsection \<open>\<^verbatim>\<open>create_documentation\<close>\<close>

text \<open>The part of the README template that the source shows, up to its line 390.\<close>

definition readme_shown :: "fpart list" where
  "readme_shown =
     [Lit (''# KPU Data Extractor v''),
      Field ''self'' ''version'',
      Lit (lines_nl
           ['''',
            '''',
            ''Complete data extraction tool for KPU/KOMINFO public APIs.'',
            '''',
            ''## '' @ rocket_glyph @ '' Features'',
            '''',
            ''- '' @ check_mark @ '' Data DPT lookup by NIK'',
            ''- '' @ check_mark @ '' TPS results checking'',
            ''- '' @ check_mark @ '' Wilayah data extraction'',
            ''- '' @ check_mark @ '' Batch NIK processing'',
            ''- '' @ check_mark @ '' Multiple export formats (CSV, Excel, JSON)'',
            ''- '' @ check_mark @ '' Database storage with SQLite'',
            ''- '' @ check_mark @ '' Comprehensive logging'',
            ''- '' @ check_mark @ '' Clean and structured code'',
            '''']
          @ (''## '' @ folder_glyph @ '' Project Structure''))]"

text \<open>
  Modelled from the spec: the source of \<^verbatim>\<open>create_documentation\<close> stops inside the README
  template, so the rest of the template (the parameter \<open>rest\<close>) and the statement that
  writes the file are not in it. The spec has the stage generate the README and write it to
  its fixed path, unconditionally overwriting any existing content.
\<close>

definition create_documentation :: "string \<Rightarrow> state \<Rightarrow> result" where
  "create_documentation rest =
     seq [print (newline # ''[6/6] Creating documentation...''),
          with_fstring (method_scope [''self'']) (readme_shown @ [Lit rest])
            (\<lambda>t. fs_op (write_text (parts ''README.md'') t))]"

subsection \<open>The run\<close>

text \<open>
  The source stops at its line 390, inside \<^verbatim>\<open>create_documentation\<close>; the method that
  calls the stages and the caller of that method are not in it.
\<close>

text \<open>
  Modelled from the spec: the seven operations of the run, by name. The method that calls
  them is past the end of the source.
\<close>

datatype stage = Banner | CheckVersion | Structure | Config | Install | MainFiles | Documentation

text \<open>
  Modelled from the spec: which method of the class each operation is. The method that
  calls them is past the end of the source.
\<close>

fun exec_stage :: "host \<Rightarrow> string \<Rightarrow> stage \<Rightarrow> state \<Rightarrow> result" where
  "exec_stage h rest Banner = print_banner"
| "exec_stage h rest CheckVersion = check_python_version h"
| "exec_stage h rest Structure = create_project_structure"
| "exec_stage h rest Config = create_config_files h"
| "exec_stage h rest Install = install_dependencies h"
| "exec_stage h rest MainFiles = create_main_files"
| "exec_stage h rest Documentation = create_documentation rest"

text \<open>
  Modelled from the spec: the fixed order of the operations. The method that calls the
  stages is past the end of the source; the spec has it execute the seven operations in
  this order.
\<close>

definition run_order :: "stage list" where
  "run_order = [Banner, CheckVersion, Structure, Config, Install, MainFiles, Documentation]"

text \<open>
  Modelled from the spec: the stages one after the other, each once, with no retry and no
  rollback; an exception that a stage does not handle itself ends the run and goes up to
  the caller (the calling method is past the end of the source). The result is paired with
  the stages that were begun, in order.
\<close>

fun run_stages :: "host \<Rightarrow> string \<Rightarrow> stage list \<Rightarrow> state \<Rightarrow> stage list \<times> result" where
  "run_stages h rest [] s = ([], Normal s)"
| "run_stages h rest (x # xs) s =
     (case exec_stage h rest x s of
        Abort e s' \<Rightarrow> ([x], Abort e s')
      | Normal s' \<Rightarrow> (case run_stages h rest xs s' of (begun, r) \<Rightarrow> (x # begun, r)))"

text \<open>
  Modelled from the spec: the run itself, the stages in their fixed order (the calling
  method is past the end of the source).
\<close>

definition run :: "host \<Rightarrow> string \<Rightarrow> state \<Rightarrow> stage list \<times> result" where
  "run h rest s = run_stages h rest run_order s"

text \<open>
  Modelled from the spec: the top-level caller is past the end of the source. The spec has
  the exit status be 0 on normal completion and on a user interrupt, the status given to
  \<^verbatim>\<open>sys.exit\<close> by the version check, and 1 on any other uncaught failure.
\<close>

fun exit_status :: "result \<Rightarrow> int" where
  "exit_status (Normal s) = 0"
| "exit_status (Abort KeyboardInterrupt s) = 0"
| "exit_status (Abort (SystemExit n) s) = n"
| "exit_status (Abort e s) = 1"

subsection \<open>Hosts and trees used as examples\<close>

definition example_str_exn :: "exn \<Rightarrow> string" where
  "example_str_exn e =
     (case e of
        CalledProcessError rc cmd \<Rightarrow> ''Command returned non-zero exit status '' @ str_int rc @ ''.''
      | _ \<Rightarrow> [])"

definition host_3_11 :: host where
  "host_3_11 =
     \<lparr>sys_version_info =
        \<lparr>major = 3, minor = 11, micro = 4, releaselevel = ''final'', serial = 0\<rparr>,
      sys_executable = ''/usr/bin/python3'',
      run_process = (\<lambda>cmd. Exited 1),
      str_exn = example_str_exn,
      json_dumps = (\<lambda>v. [])\<rparr>"

definition host_3_6 :: host where
  "host_3_6 =
     host_3_11\<lparr>sys_version_info :=
        \<lparr>major = 3, minor = 6, micro = 9, releaselevel = ''final'', serial = 0\<rparr>\<rparr>"

definition host_no_pip :: host where
  "host_no_pip =
     host_3_11\<lparr>run_process := (\<lambda>cmd. NotStarted ''[Errno 2] No such file or directory'')\<rparr>"

text \<open>A base directory that holds nothing yet, and one where \<^verbatim>\<open>run.py\<close> was written before.\<close>

definition fresh_tree :: state where
  "fresh_tree = \<lparr>fs = Map.empty, stdout = []\<rparr>"

definition seeded_tree :: state where
  "seeded_tree = \<lparr>fs = [[''run.py''] \<mapsto> File ''# my own launcher''], stdout = []\<rparr>"

text \<open>A base directory in which a regular file has the name of a planned directory.\<close>

definition blocked_tree :: state where
  "blocked_tree = \<lparr>fs = [[''src''] \<mapsto> File ''notes''], stdout = []\<rparr>"

subsection \<open>What a statement may change\<close>

text \<open>
  Between two states, every path holds what it held, or was created inside \<open>C\<close> where
  nothing was, or lies in \<open>W\<close>.
\<close>

definition frame :: "path set \<Rightarrow> path set \<Rightarrow> state \<Rightarrow> state \<Rightarrow> bool" where
  "frame C W s s' = (\<forall>p. fs s' p = fs s p \<or> (p \<in> C \<and> fs s p = None) \<or> p \<in> W)"

definition prefixes :: "path \<Rightarrow> path list" where
  "prefixes p = map (\<lambda>k. take k p) [1..<Suc (length p)]"

definition plan_created :: "path set" where
  "plan_created = (\<Union>d \<in> set directories. set (prefixes (parts d))) \<union> parts ` set files"

section \<open>Properties\<close>

subsection \<open>The version check\<close>

lemma print_banner_normal: "\<exists>t. print_banner s = Normal (s\<lparr>stdout := stdout s @ [t]\<rparr>)"
  by (simp add: print_banner_def with_fstring_def banner_def method_scope_def self_attrs_def
        print_def) blast

lemma check_python_version_below:
  assumes "major (sys_version_info h) < 3
           \<or> (major (sys_version_info h) = 3 \<and> minor (sys_version_info h) < 7)"
  shows "check_python_version h s =
           Abort (SystemExit 1)
             (s\<lparr>stdout := stdout s @ [''[1/6] Checking Python version...'',
                                        cross_mark @ '' Python 3.7 or higher is required!'']\<rparr>)"
  using assms
  by (auto simp add: check_python_version_def version_info_lt_def print_def raise_def)

lemma check_python_version_ok:
  assumes "\<not> (major (sys_version_info h) < 3
              \<or> (major (sys_version_info h) = 3 \<and> minor (sys_version_info h) < 7))"
  shows "check_python_version h s =
           Normal
             (s\<lparr>stdout := stdout s @ [''[1/6] Checking Python version...'',
                 check_mark @ '' Python '' @ str_int (major (sys_version_info h)) @ ''.''
                 @ str_int (minor (sys_version_info h)) @ '' detected'']\<rparr>)"
  using assms
  by (auto simp add: check_python_version_def version_info_lt_def print_def raise_def)

text \<open>
  Claim C1. On a host whose version is below 3.7 the version check prints its heading and
  the error and raises \<^verbatim>\<open>SystemExit(1)\<close>; the run begins the banner and the version check
  and nothing else, the exit status is 1, and the filesystem is the one the run started
  with. On a host at or above 3.7 the version check
  returns normally, having printed its heading and the confirmation with the detected
  major and minor version.
\<close>

theorem version_check_decides:
  "(major (sys_version_info h) < 3
      \<or> (major (sys_version_info h) = 3 \<and> minor (sys_version_info h) < 7)
    \<longrightarrow> check_python_version h s =
          Abort (SystemExit 1)
            (s\<lparr>stdout := stdout s @ [''[1/6] Checking Python version...'',
                                       cross_mark @ '' Python 3.7 or higher is required!'']\<rparr>)
        \<and> (\<exists>s'. run h rest s = ([Banner, CheckVersion], Abort (SystemExit 1) s')
              \<and> fs s' = fs s \<and> exit_status (Abort (SystemExit 1) s') = 1))
   \<and> (\<not> (major (sys_version_info h) < 3
          \<or> (major (sys_version_info h) = 3 \<and> minor (sys_version_info h) < 7))
    \<longrightarrow> check_python_version h s =
          Normal (s\<lparr>stdout := stdout s @ [''[1/6] Checking Python version...'',
               check_mark @ '' Python '' @ str_int (major (sys_version_info h)) @ ''.''
               @ str_int (minor (sys_version_info h)) @ '' detected'']\<rparr>))"
proof (intro conjI impI)
  assume low: "major (sys_version_info h) < 3
               \<or> (major (sys_version_info h) = 3 \<and> minor (sys_version_info h) < 7)"
  obtain t where b: "print_banner s = Normal (s\<lparr>stdout := stdout s @ [t]\<rparr>)"
    using print_banner_normal by blast
  show "check_python_version h s =
          Abort (SystemExit 1)
            (s\<lparr>stdout := stdout s @ [''[1/6] Checking Python version...'',
                                       cross_mark @ '' Python 3.7 or higher is required!'']\<rparr>)"
    by (rule check_python_version_below [OF low])
  show "\<exists>s'. run h rest s = ([Banner, CheckVersion], Abort (SystemExit 1) s')
              \<and> fs s' = fs s \<and> exit_status (Abort (SystemExit 1) s') = 1"
    by (simp add: run_def run_order_def b check_python_version_below [OF low])
next
  assume "\<not> (major (sys_version_info h) < 3
             \<or> (major (sys_version_info h) = 3 \<and> minor (sys_version_info h) < 7))"
  then show "check_python_version h s =
          Normal (s\<lparr>stdout := stdout s @ [''[1/6] Checking Python version...'',
               check_mark @ '' Python '' @ str_int (major (sys_version_info h)) @ ''.''
               @ str_int (minor (sys_version_info h)) @ '' detected'']\<rparr>)"
    by (rule check_python_version_ok)
qed

theorem version_check_decides_witness:
  "(major (sys_version_info host_3_6) = 3 \<and> minor (sys_version_info host_3_6) < 7)
   \<and> (\<exists>s'. run host_3_6 [] fresh_tree = ([Banner, CheckVersion], Abort (SystemExit 1) s')
          \<and> fs s' = fs fresh_tree \<and> exit_status (Abort (SystemExit 1) s') = 1)
   \<and> \<not> (major (sys_version_info host_3_11) < 3
         \<or> (major (sys_version_info host_3_11) = 3 \<and> minor (sys_version_info host_3_11) < 7))
   \<and> check_python_version host_3_11 fresh_tree =
       Normal (fresh_tree\<lparr>stdout := [''[1/6] Checking Python version...'',
                                      check_mark @ '' Python 3.11 detected'']\<rparr>)"
proof -
  have low: "major (sys_version_info host_3_6) = 3 \<and> minor (sys_version_info host_3_6) < 7"
    by (simp add: host_3_6_def host_3_11_def)
  then have low': "major (sys_version_info host_3_6) < 3
      \<or> (major (sys_version_info host_3_6) = 3 \<and> minor (sys_version_info host_3_6) < 7)"
    by simp
  have high: "\<not> (major (sys_version_info host_3_11) < 3
         \<or> (major (sys_version_info host_3_11) = 3 \<and> minor (sys_version_info host_3_11) < 7))"
    by (simp add: host_3_11_def)
  have a: "\<exists>s'. run host_3_6 [] fresh_tree = ([Banner, CheckVersion], Abort (SystemExit 1) s')
          \<and> fs s' = fs fresh_tree \<and> exit_status (Abort (SystemExit 1) s') = 1"
    using version_check_decides [where h = host_3_6 and rest = "[]" and s = fresh_tree, THEN conjunct1] low' by blast
  have b: "check_python_version host_3_11 fresh_tree =
          Normal (fresh_tree\<lparr>stdout := stdout fresh_tree @ [''[1/6] Checking Python version...'',
               check_mark @ '' Python '' @ str_int (major (sys_version_info host_3_11)) @ ''.''
               @ str_int (minor (sys_version_info host_3_11)) @ '' detected'']\<rparr>)"
    using version_check_decides [where h = host_3_11 and rest = "[]" and s = fresh_tree, THEN conjunct2] high by blast
  have c: "str_int (major (sys_version_info host_3_11)) = ''3''"
          "str_int (minor (sys_version_info host_3_11)) = ''11''"
    by (simp_all add: host_3_11_def str_int_def digit_def)
  have d: "stdout fresh_tree = []" by (simp add: fresh_tree_def)
  from b have b': "check_python_version host_3_11 fresh_tree =
       Normal (fresh_tree\<lparr>stdout := [''[1/6] Checking Python version...'',
                                      check_mark @ '' Python 3.11 detected'']\<rparr>)"
    unfolding c d by simp
  from low a high b' show ?thesis by blast
qed

subsection \<open>Frames of the scaffolding stage\<close>

lemma frame_refl: "frame C W s s"
  by (simp add: frame_def)

lemma frame_trans: "frame C W s s' \<Longrightarrow> frame C W s' s'' \<Longrightarrow> frame C W s s''"
  unfolding frame_def by metis

lemma frame_mono: "frame C W s s' \<Longrightarrow> C \<subseteq> C' \<Longrightarrow> W \<subseteq> W' \<Longrightarrow> frame C' W' s s'"
  unfolding frame_def by blast

lemma frame_print: "frame C W s (state_of (print t s))"
  by (simp add: frame_def print_def)

lemma seq_frame:
  assumes "\<And>c s. c \<in> set cs \<Longrightarrow> frame C W s (state_of (c s))"
  shows "frame C W s (state_of (seq cs s))"
  using assms
proof (induction cs arbitrary: s)
  case Nil
  show ?case by (simp add: frame_refl)
next
  case (Cons c cs)
  have step: "frame C W s (state_of (c s))" using Cons.prems by simp
  show ?case
  proof (cases "c s")
    case (Normal s')
    have "frame C W s' (state_of (seq cs s'))"
      using Cons.IH Cons.prems by simp
    with step Normal show ?thesis by (auto intro: frame_trans)
  next
    case (Abort e s')
    with step show ?thesis by simp
  qed
qed

lemma for_each_frame:
  assumes "\<And>x s. x \<in> set xs \<Longrightarrow> frame C W s (state_of (body x s))"
  shows "frame C W s (state_of (for_each xs body s))"
  unfolding for_each_def using assms by (intro seq_frame) auto

text \<open>What \<^const>\<open>mkdir\<close> changes, what it makes, and when it succeeds.\<close>

lemma mkdir_from_effect:
  "mkdir_from pre cs g = Inr g' \<Longrightarrow>
     g' p = g p \<or> (g p = None \<and> g' p = Some Dir \<and> (\<exists>k. 0 < k \<and> k \<le> length cs \<and> p = pre @ take k cs))"
proof (induction cs arbitrary: pre g)
  case Nil
  then show ?case by simp
next
  case (Cons c cs)
  show ?case
  proof (cases "g (pre @ [c])")
    case None
    with Cons.prems have r: "mkdir_from (pre @ [c]) cs (g(pre @ [c] \<mapsto> Dir)) = Inr g'" by simp
    from Cons.IH [OF r] show ?thesis
    proof
      assume a: "g' p = (g(pre @ [c] \<mapsto> Dir)) p"
      show ?thesis
      proof (cases "p = pre @ [c]")
        case True
        with a None have "g p = None \<and> g' p = Some Dir \<and> p = pre @ take 1 (c # cs)" by simp
        then show ?thesis by (intro disjI2) (auto intro!: exI [of _ 1])
      next
        case False
        with a show ?thesis by simp
      qed
    next
      assume "(g(pre @ [c] \<mapsto> Dir)) p = None \<and> g' p = Some Dir \<and>
                (\<exists>k. 0 < k \<and> k \<le> length cs \<and> p = (pre @ [c]) @ take k cs)"
      then obtain k where k: "(g(pre @ [c] \<mapsto> Dir)) p = None" "g' p = Some Dir" "0 < k" "k \<le> length cs"
        "p = (pre @ [c]) @ take k cs" by blast
      from k(1) have "g p = None" by (simp split: if_splits)
      moreover have "p = pre @ take (Suc k) (c # cs)" using k(5) by simp
      ultimately show ?thesis using k(2,4) by (intro disjI2) (auto intro!: exI [of _ "Suc k"])
    qed
  next
    case (Some n)
    show ?thesis
    proof (cases n)
      case Dir
      with Some Cons.prems have r: "mkdir_from (pre @ [c]) cs g = Inr g'" by simp
      from Cons.IH [OF r] show ?thesis
      proof
        assume "g' p = g p" then show ?thesis by simp
      next
        assume "g p = None \<and> g' p = Some Dir \<and> (\<exists>k. 0 < k \<and> k \<le> length cs \<and> p = (pre @ [c]) @ take k cs)"
        then obtain k where k: "g p = None" "g' p = Some Dir" "0 < k" "k \<le> length cs"
          "p = (pre @ [c]) @ take k cs" by blast
        have "p = pre @ take (Suc k) (c # cs)" using k(5) by simp
        then show ?thesis using k(1,2,4) by (intro disjI2) (auto intro!: exI [of _ "Suc k"])
      qed
    next
      case (File t)
      with Some Cons.prems show ?thesis by simp
    qed
  qed
qed

lemma mkdir_from_made:
  "mkdir_from pre cs g = Inr g' \<Longrightarrow> 0 < k \<Longrightarrow> k \<le> length cs \<Longrightarrow> g' (pre @ take k cs) = Some Dir"
proof (induction cs arbitrary: pre g k)
  case Nil
  then show ?case by simp
next
  case (Cons c cs)
  obtain g1 where g1: "mkdir_from (pre @ [c]) cs g1 = Inr g'" "g1 (pre @ [c]) = Some Dir"
    using Cons.prems(1) by (auto split: option.splits node.splits)
  show ?case
  proof (cases k)
    case 0
    with Cons.prems show ?thesis by simp
  next
    case (Suc j)
    show ?thesis
    proof (cases "j = 0")
      case True
      from mkdir_from_effect [OF g1(1), of "pre @ [c]"] g1(2)
      have "g' (pre @ [c]) = Some Dir" by auto
      with True Suc show ?thesis by simp
    next
      case False
      with Suc Cons.prems have "0 < j" "j \<le> length cs" by auto
      from Cons.IH [OF g1(1) this] Suc show ?thesis by simp
    qed
  qed
qed

lemma mkdir_from_succeeds:
  "(\<And>k t. 0 < k \<Longrightarrow> k \<le> length cs \<Longrightarrow> g (pre @ take k cs) \<noteq> Some (File t)) \<Longrightarrow>
     \<exists>g'. mkdir_from pre cs g = Inr g'"
proof (induction cs arbitrary: pre g)
  case Nil
  then show ?case by simp
next
  case (Cons c cs)
  have head: "\<And>t. g (pre @ [c]) \<noteq> Some (File t)"
    using Cons.prems [of 1] by simp
  have tail: "\<And>k t. 0 < k \<Longrightarrow> k \<le> length cs \<Longrightarrow> g ((pre @ [c]) @ take k cs) \<noteq> Some (File t)"
    using Cons.prems [of "Suc k" for k] by simp
  show ?case
  proof (cases "g (pre @ [c])")
    case None
    have "\<exists>g'. mkdir_from (pre @ [c]) cs (g(pre @ [c] \<mapsto> Dir)) = Inr g'"
      by (rule Cons.IH) (use tail in \<open>auto split: if_splits\<close>)
    with None show ?thesis by simp
  next
    case (Some n)
    with head obtain "n = Dir" by (cases n) auto
    moreover have "\<exists>g'. mkdir_from (pre @ [c]) cs g = Inr g'"
      by (rule Cons.IH) (use tail in auto)
    ultimately show ?thesis using Some by simp
  qed
qed


lemma in_prefixes: "q \<in> set (prefixes p) \<longleftrightarrow> (\<exists>k. 0 < k \<and> k \<le> length p \<and> q = take k p)"
proof -
  have "set (prefixes p) = (\<lambda>k. take k p) ` {k. 0 < k \<and> k \<le> length p}"
    unfolding prefixes_def set_map set_upt by (rule arg_cong [where f = "image (\<lambda>k. take k p)"]) auto
  then show ?thesis by auto
qed

lemma mkdir_effect:
  assumes "mkdir p g = Inr g'"
  shows "g' q = g q \<or> (g q = None \<and> g' q = Some Dir \<and> q \<in> set (prefixes p))"
  using mkdir_from_effect [of "[]" p g g' q] assms
  by (auto simp add: mkdir_def in_prefixes)

lemma mkdir_made:
  assumes "mkdir p g = Inr g'" and "q \<in> set (prefixes p)"
  shows "g' q = Some Dir"
  using assms mkdir_from_made [of "[]" p g g']
  by (auto simp add: mkdir_def in_prefixes)

lemma mkdir_succeeds:
  assumes "\<And>q t. q \<in> set (prefixes p) \<Longrightarrow> g q \<noteq> Some (File t)"
  shows "\<exists>g'. mkdir p g = Inr g'"
  unfolding mkdir_def
  by (rule mkdir_from_succeeds) (use assms in \<open>auto simp add: in_prefixes\<close>)

lemma create_dir_result:
  "create_dir d s =
     (case mkdir (parts d) (fs s) of
        Inl e \<Rightarrow> Abort e s
      | Inr g \<Rightarrow> Normal (s\<lparr>fs := g, stdout := stdout s @ [''  '' @ folder_glyph @ '' Created: '' @ d]\<rparr>))"
  by (simp add: create_dir_def fs_op_def print_def split: sum.splits)

lemma create_dir_frame: "frame (set (prefixes (parts d))) W s (state_of (create_dir d s))"
proof (cases "mkdir (parts d) (fs s)")
  case (Inl e)
  then show ?thesis by (simp add: create_dir_result frame_refl)
next
  case (Inr g)
  then show ?thesis
    using mkdir_effect [OF Inr] by (auto simp add: create_dir_result frame_def)
qed

lemma create_file_result:
  "create_file f s =
     (if path_exists (fs s) (parts f) then Normal s
      else case touch (parts f) (fs s) of
             Inl e \<Rightarrow> Abort e s
           | Inr g \<Rightarrow> Normal (s\<lparr>fs := g, stdout := stdout s @ [''  '' @ page_glyph @ '' Created: '' @ f]\<rparr>))"
  by (simp add: create_file_def fs_op_def print_def split: sum.splits)

lemma touch_effect:
  assumes "touch p g = Inr g'"
  shows "g' = g \<or> (node_at g p = None \<and> g' = g(p \<mapsto> File []))"
  using assms by (auto simp add: touch_def split: option.splits node.splits)

lemma create_file_frame: "frame {parts f} W s (state_of (create_file f s))"
proof (cases "path_exists (fs s) (parts f)")
  case True
  then show ?thesis by (simp add: create_file_result frame_refl)
next
  case False
  show ?thesis
  proof (cases "touch (parts f) (fs s)")
    case (Inl e)
    with False show ?thesis by (simp add: create_file_result frame_refl)
  next
    case (Inr g)
    from touch_effect [OF Inr] False Inr show ?thesis
      by (auto simp add: create_file_result frame_def node_at_def split: if_splits)
  qed
qed

lemma write_text_effect:
  assumes "write_text p t g = Inr g'"
  shows "g' = g(p \<mapsto> File t)"
  using assms by (auto simp add: write_text_def split: option.splits node.splits)

lemma write_text_frame: "frame C {p} s (state_of (fs_op (write_text p t) s))"
proof (cases "write_text p t (fs s)")
  case (Inl e)
  then show ?thesis by (simp add: fs_op_def frame_refl)
next
  case (Inr g)
  from write_text_effect [OF Inr] Inr show ?thesis
    by (simp add: fs_op_def frame_def)
qed


lemma parts_gitignore: "parts ''.gitignore'' = [''.gitignore'']"
  by (simp add: parts_def)

lemma seq_frame_Nil: "frame C W s (state_of (seq [] s))"
  by (simp add: frame_refl)

lemma seq_frame_Cons:
  assumes "\<And>s. frame C W s (state_of (c s))" and "\<And>s. frame C W s (state_of (seq cs s))"
  shows "frame C W s (state_of (seq (c # cs) s))"
proof (cases "c s")
  case (Normal s')
  from assms(1) [of s] Normal have "frame C W s s'" by simp
  with assms(2) [of s'] Normal show ?thesis by (simp add: frame_trans)
next
  case (Abort e s')
  from assms(1) [of s] Abort show ?thesis by simp
qed

lemma create_dirs_frame:
  "frame plan_created W s (state_of (for_each directories create_dir s))"
proof (rule for_each_frame)
  fix x s assume "x \<in> set directories"
  then have sub: "set (prefixes (parts x)) \<subseteq> plan_created" by (auto simp add: plan_created_def)
  show "frame plan_created W s (state_of (create_dir x s))"
    by (rule frame_mono [OF create_dir_frame sub subset_refl])
qed

lemma create_files_frame:
  "frame plan_created W s (state_of (for_each files create_file s))"
proof (rule for_each_frame)
  fix x s assume "x \<in> set files"
  then have sub: "{parts x} \<subseteq> plan_created" by (auto simp add: plan_created_def)
  show "frame plan_created W s (state_of (create_file x s))"
    by (rule frame_mono [OF create_file_frame sub subset_refl])
qed

lemma create_project_structure_frame:
  "frame plan_created {[''.gitignore'']} s (state_of (create_project_structure s))"
  unfolding create_project_structure_def parts_gitignore
  by (intro seq_frame_Cons seq_frame_Nil frame_print create_dirs_frame create_files_frame
        write_text_frame)

subsection \<open>The plans, path by path\<close>

lemma map_parts_directories:
  "map parts directories =
     [[''src''], [''src'', ''core''], [''src'', ''api''], [''src'', ''database''],
      [''src'', ''utils''], [''src'', ''export''], [''src'', ''reports''], [''data''],
      [''data'', ''raw''], [''data'', ''processed''], [''data'', ''exports''], [''logs''],
      [''config''], [''docs''], [''tests''], [''bin''], [''tmp'']]"
  by (simp add: directories_def parts_def)

lemma map_parts_files:
  "map parts files =
     [[''src'', ''__init__.py''], [''src'', ''core'', ''__init__.py''],
      [''src'', ''api'', ''__init__.py''], [''src'', ''database'', ''__init__.py''],
      [''src'', ''utils'', ''__init__.py''], [''src'', ''export'', ''__init__.py''],
      [''src'', ''reports'', ''__init__.py''], [''config'', ''settings.json''],
      [''config'', ''api_config.json''], [''.env.example''], [''requirements.txt''],
      [''README.md''], [''CHANGELOG.md''], [''LICENSE''], [''run.py''], [''cleanup.py'']]"
  by (simp add: files_def parts_def)

lemma dirs_prefix_closed:
  "list_all (\<lambda>p. list_all (\<lambda>q. q \<in> set (map parts directories)) (prefixes p)) (map parts directories)"
  unfolding map_parts_directories by (simp add: prefixes_def upt_rec)

lemma files_parents:
  "list_all (\<lambda>p. butlast p = [] \<or> butlast p \<in> set (map parts directories)) (map parts files)"
  unfolding map_parts_directories map_parts_files by simp

lemma files_not_dirs:
  "list_all (\<lambda>p. p \<notin> set (map parts directories) \<and> p \<noteq> [] \<and> p \<noteq> [''.gitignore'']) (map parts files)"
  unfolding map_parts_directories map_parts_files by simp

lemma dirs_not_special:
  "list_all (\<lambda>p. p \<noteq> [] \<and> p \<noteq> [''.gitignore'']) (map parts directories)"
  unfolding map_parts_directories by simp


lemma for_each_Nil: "for_each [] body s = Normal s"
  by (simp add: for_each_def)

lemma for_each_Cons:
  "for_each (x # xs) body s =
     (case body x s of Normal s' \<Rightarrow> for_each xs body s' | Abort e s' \<Rightarrow> Abort e s')"
  by (cases "body x s") (simp_all add: for_each_def)

lemma create_dirs_ok:
  assumes "\<And>d q t. d \<in> set ds \<Longrightarrow> q \<in> set (prefixes (parts d)) \<Longrightarrow> fs s q \<noteq> Some (File t)"
  shows "\<exists>s'. for_each ds create_dir s = Normal s'
            \<and> (\<forall>d \<in> set ds. \<forall>q \<in> set (prefixes (parts d)). fs s' q = Some Dir)
            \<and> (\<forall>p. fs s' p = fs s p
                   \<or> (fs s p = None \<and> fs s' p = Some Dir
                       \<and> p \<in> (\<Union>d \<in> set ds. set (prefixes (parts d)))))"
  using assms
proof (induction ds arbitrary: s)
  case Nil
  show ?case by (simp add: for_each_Nil)
next
  case (Cons d ds)
  have "\<exists>g. mkdir (parts d) (fs s) = Inr g"
    by (rule mkdir_succeeds) (use Cons.prems in auto)
  then obtain g where g: "mkdir (parts d) (fs s) = Inr g" ..
  define s1 where "s1 = s\<lparr>fs := g, stdout := stdout s @ [''  '' @ folder_glyph @ '' Created: '' @ d]\<rparr>"
  have step: "create_dir d s = Normal s1"
    by (simp add: create_dir_result g s1_def)
  have fs1: "fs s1 = g" by (simp add: s1_def)
  have eff: "\<And>p. g p = fs s p \<or> (fs s p = None \<and> g p = Some Dir \<and> p \<in> set (prefixes (parts d)))"
    using mkdir_effect [OF g] by blast
  have pre1: "\<And>d' q t. d' \<in> set ds \<Longrightarrow> q \<in> set (prefixes (parts d')) \<Longrightarrow> fs s1 q \<noteq> Some (File t)"
  proof -
    fix d' q t assume a: "d' \<in> set ds" "q \<in> set (prefixes (parts d'))"
    from Cons.prems [of d' q t] a have "fs s q \<noteq> Some (File t)" by simp
    with eff [of q] show "fs s1 q \<noteq> Some (File t)" by (auto simp add: fs1)
  qed
  have "\<exists>s'. for_each ds create_dir s1 = Normal s'
            \<and> (\<forall>d \<in> set ds. \<forall>q \<in> set (prefixes (parts d)). fs s' q = Some Dir)
            \<and> (\<forall>p. fs s' p = fs s1 p
                   \<or> (fs s1 p = None \<and> fs s' p = Some Dir
                       \<and> p \<in> (\<Union>d \<in> set ds. set (prefixes (parts d)))))"
    by (rule Cons.IH) (use pre1 in blast)
  then obtain s' where s':
    "for_each ds create_dir s1 = Normal s'"
    "\<forall>d \<in> set ds. \<forall>q \<in> set (prefixes (parts d)). fs s' q = Some Dir"
    "\<forall>p. fs s' p = fs s1 p
         \<or> (fs s1 p = None \<and> fs s' p = Some Dir \<and> p \<in> (\<Union>d \<in> set ds. set (prefixes (parts d))))"
    by blast
  have run: "for_each (d # ds) create_dir s = Normal s'"
    by (simp add: for_each_Cons step s'(1))
  have made: "\<forall>q \<in> set (prefixes (parts d)). fs s' q = Some Dir"
  proof
    fix q assume "q \<in> set (prefixes (parts d))"
    then have "g q = Some Dir" by (rule mkdir_made [OF g])
    with s'(3) show "fs s' q = Some Dir" by (metis fs1 option.distinct(1))
  qed
  have change: "\<forall>p. fs s' p = fs s p
         \<or> (fs s p = None \<and> fs s' p = Some Dir
             \<and> p \<in> (\<Union>d \<in> set (d # ds). set (prefixes (parts d))))"
  proof
    fix p
    from s'(3) have a: "fs s' p = g p
         \<or> (g p = None \<and> fs s' p = Some Dir \<and> p \<in> (\<Union>d \<in> set ds. set (prefixes (parts d))))"
      by (simp add: fs1)
    from eff [of p] a
    show "fs s' p = fs s p
         \<or> (fs s p = None \<and> fs s' p = Some Dir
             \<and> p \<in> (\<Union>d \<in> set (d # ds). set (prefixes (parts d))))"
      by auto
  qed
  from run made s'(2) change show ?case by auto
qed

lemma create_files_ok:
  assumes "\<And>f. f \<in> set fl \<Longrightarrow> node_at (fs s) (butlast (parts f)) = Some Dir"
  shows "\<exists>s'. for_each fl create_file s = Normal s'
            \<and> (\<forall>f \<in> set fl. node_at (fs s') (parts f) \<noteq> None)
            \<and> (\<forall>p. fs s' p = fs s p
                   \<or> (fs s p = None \<and> fs s' p = Some (File []) \<and> p \<in> parts ` set fl))"
  using assms
proof (induction fl arbitrary: s)
  case Nil
  show ?case by (simp add: for_each_Nil)
next
  case (Cons f fl)
  have parent: "node_at (fs s) (butlast (parts f)) = Some Dir" using Cons.prems by simp
  obtain s1 where step: "create_file f s = Normal s1"
    and there: "node_at (fs s1) (parts f) \<noteq> None"
    and eff: "\<And>p. fs s1 p = fs s p \<or> (fs s p = None \<and> fs s1 p = Some (File []) \<and> p = parts f)"
  proof (cases "path_exists (fs s) (parts f)")
    case True
    then have "create_file f s = Normal s" "node_at (fs s) (parts f) \<noteq> None"
      by (simp_all add: create_file_result path_exists_def)
    then show ?thesis using that [of s] by simp
  next
    case False
    then have none: "node_at (fs s) (parts f) = None" by (simp add: path_exists_def)
    then have ne: "parts f \<noteq> []" by (auto simp add: node_at_def)
    have t: "touch (parts f) (fs s) = Inr ((fs s)(parts f \<mapsto> File []))"
      by (simp add: touch_def parent none)
    let ?s1 = "s\<lparr>fs := (fs s)(parts f \<mapsto> File []),
                  stdout := stdout s @ [''  '' @ page_glyph @ '' Created: '' @ f]\<rparr>"
    have "create_file f s = Normal ?s1"
      using False by (simp add: create_file_result t)
    moreover have "node_at (fs ?s1) (parts f) \<noteq> None" by (simp add: node_at_def)
    moreover have "\<And>p. fs ?s1 p = fs s p \<or> (fs s p = None \<and> fs ?s1 p = Some (File []) \<and> p = parts f)"
      using none ne by (auto simp add: node_at_def)
    ultimately show ?thesis using that [of ?s1] by blast
  qed
  have pre1: "\<And>f'. f' \<in> set fl \<Longrightarrow> node_at (fs s1) (butlast (parts f')) = Some Dir"
  proof -
    fix f' assume "f' \<in> set fl"
    then have a: "node_at (fs s) (butlast (parts f')) = Some Dir" using Cons.prems by simp
    show "node_at (fs s1) (butlast (parts f')) = Some Dir"
      using a eff [of "butlast (parts f')"] by (auto simp add: node_at_def split: if_splits)
  qed
  have "\<exists>s'. for_each fl create_file s1 = Normal s'
            \<and> (\<forall>f \<in> set fl. node_at (fs s') (parts f) \<noteq> None)
            \<and> (\<forall>p. fs s' p = fs s1 p
                   \<or> (fs s1 p = None \<and> fs s' p = Some (File []) \<and> p \<in> parts ` set fl))"
    by (rule Cons.IH) (use pre1 in blast)
  then obtain s' where s':
    "for_each fl create_file s1 = Normal s'"
    "\<forall>f \<in> set fl. node_at (fs s') (parts f) \<noteq> None"
    "\<forall>p. fs s' p = fs s1 p \<or> (fs s1 p = None \<and> fs s' p = Some (File []) \<and> p \<in> parts ` set fl)"
    by blast
  have run: "for_each (f # fl) create_file s = Normal s'"
    by (simp add: for_each_Cons step s'(1))
  have there': "node_at (fs s') (parts f) \<noteq> None"
    using there s'(3) by (auto simp add: node_at_def split: if_splits) metis
  have change: "\<forall>p. fs s' p = fs s p
                   \<or> (fs s p = None \<and> fs s' p = Some (File []) \<and> p \<in> parts ` set (f # fl))"
  proof
    fix p
    from s'(3) have a: "fs s' p = fs s1 p
        \<or> (fs s1 p = None \<and> fs s' p = Some (File []) \<and> p \<in> parts ` set fl)" by blast
    from eff [of p] a
    show "fs s' p = fs s p
                   \<or> (fs s p = None \<and> fs s' p = Some (File []) \<and> p \<in> parts ` set (f # fl))"
      by auto
  qed
  from run there' s'(2) change show ?case by auto
qed

subsection \<open>What the scaffolding stage leaves behind\<close>

lemma dirs_prefix_closed':
  assumes "d \<in> set directories" and "q \<in> set (prefixes (parts d))"
  shows "q \<in> parts ` set directories"
proof -
  from assms(1) have "parts d \<in> set (map parts directories)" by simp
  with dirs_prefix_closed assms(2) have "q \<in> set (map parts directories)"
    unfolding list_all_iff by blast
  then show ?thesis by simp
qed

lemma files_parents':
  assumes "f \<in> set files"
  shows "butlast (parts f) = [] \<or> butlast (parts f) \<in> parts ` set directories"
proof -
  from assms have "parts f \<in> set (map parts files)" by simp
  with files_parents have "butlast (parts f) = [] \<or> butlast (parts f) \<in> set (map parts directories)"
    unfolding list_all_iff by blast
  then show ?thesis by simp
qed

lemma files_not_dirs':
  assumes "f \<in> set files"
  shows "parts f \<notin> parts ` set directories" and "parts f \<noteq> []" and "parts f \<noteq> [''.gitignore'']"
proof -
  from assms have "parts f \<in> set (map parts files)" by simp
  with files_not_dirs have "parts f \<notin> set (map parts directories) \<and> parts f \<noteq> [] \<and> parts f \<noteq> [''.gitignore'']"
    unfolding list_all_iff by blast
  then show "parts f \<notin> parts ` set directories" and "parts f \<noteq> []" and "parts f \<noteq> [''.gitignore'']"
    by simp_all
qed

lemma dirs_not_special':
  assumes "d \<in> set directories"
  shows "parts d \<noteq> []" and "parts d \<noteq> [''.gitignore'']"
proof -
  from assms have "parts d \<in> set (map parts directories)" by simp
  with dirs_not_special have "parts d \<noteq> [] \<and> parts d \<noteq> [''.gitignore'']"
    unfolding list_all_iff by blast
  then show "parts d \<noteq> []" and "parts d \<noteq> [''.gitignore'']" by simp_all
qed

lemma self_in_prefixes: "p \<noteq> [] \<Longrightarrow> p \<in> set (prefixes p)"
  unfolding in_prefixes by (rule exI [of _ "length p"]) simp

lemma created_dirs_in_plan:
  "(\<Union>d \<in> set directories. set (prefixes (parts d))) \<subseteq> parts ` set directories"
  using dirs_prefix_closed' by blast

lemma scaffold_ok:
  assumes H1: "\<forall>d \<in> set directories. \<forall>t. fs s (parts d) \<noteq> Some (File t)"
      and H2: "\<forall>f \<in> set files. fs s (parts f) \<noteq> Some Dir"
      and H3: "fs s [''.gitignore''] \<noteq> Some Dir"
  shows "\<exists>s'. create_project_structure s = Normal s'
          \<and> (\<forall>d \<in> set directories. fs s' (parts d) = Some Dir)
          \<and> (\<forall>f \<in> set files. \<exists>t. fs s' (parts f) = Some (File t))
          \<and> (\<forall>f \<in> set files. fs s (parts f) = None \<longrightarrow> fs s' (parts f) = Some (File []))
          \<and> fs s' [''.gitignore''] = Some (File gitignore_content)
          \<and> (\<forall>p n. fs s p = Some n \<and> p \<noteq> [''.gitignore''] \<longrightarrow> fs s' p = Some n)"
proof -
  let ?hdr = "newline # ''[2/6] Creating project structure...''"
  define s0 where "s0 = s\<lparr>stdout := stdout s @ [?hdr]\<rparr>"
  have fs0: "fs s0 = fs s" by (simp add: s0_def)
  have p0: "print ?hdr s = Normal s0" by (simp add: print_def s0_def)
  have "\<exists>s1. for_each directories create_dir s0 = Normal s1
            \<and> (\<forall>d \<in> set directories. \<forall>q \<in> set (prefixes (parts d)). fs s1 q = Some Dir)
            \<and> (\<forall>p. fs s1 p = fs s0 p
                   \<or> (fs s0 p = None \<and> fs s1 p = Some Dir
                       \<and> p \<in> (\<Union>d \<in> set directories. set (prefixes (parts d)))))"
  proof (rule create_dirs_ok)
    fix d q t assume "d \<in> set directories" "q \<in> set (prefixes (parts d))"
    then have "q \<in> parts ` set directories" by (rule dirs_prefix_closed')
    with H1 show "fs s0 q \<noteq> Some (File t)" by (auto simp add: fs0)
  qed
  then obtain s1 where s1: "for_each directories create_dir s0 = Normal s1"
    and made0: "\<forall>d \<in> set directories. \<forall>q \<in> set (prefixes (parts d)). fs s1 q = Some Dir"
    and eff0: "\<forall>p. fs s1 p = fs s0 p
                   \<or> (fs s0 p = None \<and> fs s1 p = Some Dir
                       \<and> p \<in> (\<Union>d \<in> set directories. set (prefixes (parts d))))"
    by blast
  have made1: "fs s1 (parts d) = Some Dir" if "d \<in> set directories" for d
  proof -
    from that have "parts d \<in> set (prefixes (parts d))"
      by (intro self_in_prefixes dirs_not_special'(1))
    with made0 that show ?thesis by blast
  qed
  have eff1: "fs s1 p = fs s p
                \<or> (fs s p = None \<and> fs s1 p = Some Dir \<and> p \<in> parts ` set directories)" for p
  proof -
    from eff0 have "fs s1 p = fs s0 p
                   \<or> (fs s0 p = None \<and> fs s1 p = Some Dir
                       \<and> p \<in> (\<Union>d \<in> set directories. set (prefixes (parts d))))" ..
    then show ?thesis
    proof
      assume "fs s1 p = fs s0 p" then show ?thesis by (simp add: fs0)
    next
      assume a: "fs s0 p = None \<and> fs s1 p = Some Dir
                       \<and> p \<in> (\<Union>d \<in> set directories. set (prefixes (parts d)))"
      then have "p \<in> parts ` set directories" using created_dirs_in_plan by blast
      with a show ?thesis by (simp add: fs0)
    qed
  qed
  have "\<exists>s2. for_each files create_file s1 = Normal s2
            \<and> (\<forall>f \<in> set files. node_at (fs s2) (parts f) \<noteq> None)
            \<and> (\<forall>p. fs s2 p = fs s1 p
                   \<or> (fs s1 p = None \<and> fs s2 p = Some (File []) \<and> p \<in> parts ` set files))"
  proof (rule create_files_ok)
    fix f assume "f \<in> set files"
    from files_parents' [OF this] show "node_at (fs s1) (butlast (parts f)) = Some Dir"
      using made1 by (auto simp add: node_at_def)
  qed
  then obtain s2 where s2: "for_each files create_file s1 = Normal s2"
    and there0: "\<forall>f \<in> set files. node_at (fs s2) (parts f) \<noteq> None"
    and eff0': "\<forall>p. fs s2 p = fs s1 p
                   \<or> (fs s1 p = None \<and> fs s2 p = Some (File []) \<and> p \<in> parts ` set files)"
    by blast
  have there2: "fs s2 (parts f) \<noteq> None" if "f \<in> set files" for f
  proof -
    from there0 that have "node_at (fs s2) (parts f) \<noteq> None" by blast
    with files_not_dirs'(2) [OF that] show ?thesis by (simp add: node_at_def)
  qed
  have eff2: "fs s2 p = fs s1 p
                \<or> (fs s1 p = None \<and> fs s2 p = Some (File []) \<and> p \<in> parts ` set files)" for p
    using eff0' ..
  have nd: "[''.gitignore''] \<notin> parts ` set directories"
  proof
    assume "[''.gitignore''] \<in> parts ` set directories"
    then obtain d where "d \<in> set directories" "parts d = [''.gitignore'']" by auto
    with dirs_not_special'(2) show False by blast
  qed
  have nf: "[''.gitignore''] \<notin> parts ` set files"
  proof
    assume "[''.gitignore''] \<in> parts ` set files"
    then obtain f where "f \<in> set files" "parts f = [''.gitignore'']" by auto
    with files_not_dirs'(3) show False by blast
  qed
  have g1: "fs s1 [''.gitignore''] = fs s [''.gitignore'']"
    using eff1 [of "[''.gitignore'']"] nd by blast
  have g2: "fs s2 [''.gitignore''] = fs s [''.gitignore'']"
    using eff2 [of "[''.gitignore'']"] nf g1 by metis
  let ?g3 = "(fs s2)([''.gitignore''] \<mapsto> File gitignore_content)"
  have w: "write_text [''.gitignore''] gitignore_content (fs s2) = Inr ?g3"
    using H3 g2 by (auto simp add: write_text_def node_at_def split: option.splits node.splits)
  define s3 where "s3 = s2\<lparr>fs := ?g3\<rparr>"
  define s4 where "s4 = s3\<lparr>stdout := stdout s3 @ [''  '' @ page_glyph @ '' Created: .gitignore'']\<rparr>"
  define s' where "s' = s4\<lparr>stdout := stdout s4 @ [check_mark @ '' Project structure created successfully!'']\<rparr>"
  have w3: "fs_op (write_text (parts ''.gitignore'') gitignore_content) s2 = Normal s3"
    by (simp add: parts_gitignore fs_op_def w s3_def)
  have p4: "print (''  '' @ page_glyph @ '' Created: .gitignore'') s3 = Normal s4"
    by (simp add: print_def s4_def)
  have p5: "print (check_mark @ '' Project structure created successfully!'') s4 = Normal s'"
    by (simp add: print_def s'_def)
  have run: "create_project_structure s = Normal s'"
    by (simp only: create_project_structure_def seq.simps p0 s1 s2 w3 p4 p5 result.case)
  have fs': "fs s' = ?g3" by (simp add: s'_def s4_def s3_def)
  have dirs: "\<forall>d \<in> set directories. fs s' (parts d) = Some Dir"
  proof
    fix d assume d: "d \<in> set directories"
    from made1 [OF d] eff2 [of "parts d"] have "fs s2 (parts d) = Some Dir" by auto
    with dirs_not_special'(2) [OF d] show "fs s' (parts d) = Some Dir" by (simp add: fs')
  qed
  have file_kind: "\<And>f. f \<in> set files \<Longrightarrow>
      (\<exists>t. fs s2 (parts f) = Some (File t)) \<and> (fs s (parts f) = None \<longrightarrow> fs s2 (parts f) = Some (File []))"
  proof -
    fix f assume f: "f \<in> set files"
    have a: "fs s1 (parts f) = fs s (parts f)"
      using eff1 [of "parts f"] files_not_dirs'(1) [OF f] by auto
    have b: "fs s (parts f) \<noteq> Some Dir" using H2 f by blast
    show "(\<exists>t. fs s2 (parts f) = Some (File t)) \<and> (fs s (parts f) = None \<longrightarrow> fs s2 (parts f) = Some (File []))"
    proof (cases "fs s (parts f)")
      case None
      with a eff2 [of "parts f"] there2 [OF f] show ?thesis by auto
    next
      case (Some n)
      with b obtain t where "n = File t" by (cases n) auto
      with Some a eff2 [of "parts f"] show ?thesis by auto
    qed
  qed
  have files1: "\<forall>f \<in> set files. \<exists>t. fs s' (parts f) = Some (File t)"
    using file_kind files_not_dirs'(3) by (simp add: fs')
  have files2: "\<forall>f \<in> set files. fs s (parts f) = None \<longrightarrow> fs s' (parts f) = Some (File [])"
    using file_kind files_not_dirs'(3) by (simp add: fs')
  have keep: "\<forall>p n. fs s p = Some n \<and> p \<noteq> [''.gitignore''] \<longrightarrow> fs s' p = Some n"
  proof (intro allI impI)
    fix p n assume a: "fs s p = Some n \<and> p \<noteq> [''.gitignore'']"
    with eff1 [of p] have "fs s1 p = Some n" by auto
    with eff2 [of p] have "fs s2 p = Some n" by auto
    with a show "fs s' p = Some n" by (simp add: fs')
  qed
  have git: "fs s' [''.gitignore''] = Some (File gitignore_content)" by (simp add: fs')
  from run dirs files1 files2 git keep show ?thesis by blast
qed

subsection \<open>The configuration, install and main-files stages\<close>

lemma create_config_files_raises:
  "create_config_files h s =
     Abort (NameError ''json'')
       (s\<lparr>stdout := stdout s @ [newline # ''[3/6] Creating configuration files...'']\<rparr>)"
  by (simp add: create_config_files_def with_json_dumps_def method_scope_def module_globals_def
        print_def raise_def)

lemma render_cleanup_py:
  "render (method_scope [''self'', ''run_py'', ''run_path'', ''cleanup_py'']) cleanup_py_fstring
     = Inl (NameError ''dir_path'')"
  by (simp add: cleanup_py_fstring_def method_scope_def module_globals_def)

lemma render_run_py:
  "\<exists>t. render (method_scope [''self'', ''run_py'']) run_py_fstring = Inr t \<and> run_py = run_py_head @ t"
  by (simp add: run_py_def run_py_fstring_def method_scope_def self_attrs_def)

lemma run_py_import_line:
  "''from src.app.main import main'' \<in> set (split_on newline run_py)"
  by (simp add: run_py_def run_py_head_def run_py_fstring_def method_scope_def self_attrs_def
        lines_nl_def version_def newline_def)

lemma parts_simple:
  "parts ''run.py'' = [''run.py'']" "parts ''cleanup.py'' = [''cleanup.py'']"
  "parts ''requirements.txt'' = [''requirements.txt'']" "parts ''README.md'' = [''README.md'']"
  "parts ''.env.example'' = [''.env.example'']"
  by (simp_all add: parts_def)

lemma create_main_files_result:
  "create_main_files s =
     (if fs s [''run.py''] = Some Dir
      then Abort IsADirectoryError
             (s\<lparr>stdout := stdout s @ [newline # ''[5/6] Creating main application files...'']\<rparr>)
      else Abort (NameError ''dir_path'')
             (s\<lparr>fs := (fs s)([''run.py''] \<mapsto> File run_py),
                stdout := stdout s @ [newline # ''[5/6] Creating main application files...'',
                                      ''  '' @ page_glyph @ '' Created: run.py'']\<rparr>))"
proof -
  obtain t where t: "render (method_scope [''self'', ''run_py'']) run_py_fstring = Inr t"
    "run_py = run_py_head @ t"
    using render_run_py by blast
  show ?thesis
    by (simp add: create_main_files_def with_fstring_def t(1) t(2) [symmetric] render_cleanup_py
          parts_simple fs_op_def write_text_def node_at_def print_def
          split: option.splits node.splits)
qed

text \<open>
  Claim C3. The configuration stage never writes \<^verbatim>\<open>config/settings.json\<close>: the name
  \<^verbatim>\<open>json\<close> is bound nowhere, so the stage prints its heading and raises \<^verbatim>\<open>NameError\<close>
  when it evaluates \<^verbatim>\<open>json.dumps\<close>, and what the path held before the stage is what it
  holds after it.
\<close>
theorem settings_json_not_written:
  "create_config_files h s =
     Abort (NameError ''json'')
       (s\<lparr>stdout := stdout s @ [newline # ''[3/6] Creating configuration files...'']\<rparr>)
   \<and> fs (state_of (create_config_files h s)) [''config'', ''settings.json'']
       = fs s [''config'', ''settings.json'']"
  by (simp add: create_config_files_raises)

text \<open>
  Claim C9. The cleanup script is never generated: its template is an f-string whose
  braces around \<^verbatim>\<open>dir_path.name\<close> are not doubled, so building it raises \<^verbatim>\<open>NameError\<close>.
  The main-files stage always ends in an exception, and \<^verbatim>\<open>cleanup.py\<close> holds after the
  stage what it held before.
\<close>
theorem cleanup_script_not_generated:
  "render (method_scope [''self'', ''run_py'', ''run_path'', ''cleanup_py'']) cleanup_py_fstring
     = Inl (NameError ''dir_path'')
   \<and> raised (create_main_files s) \<in> {Some (NameError ''dir_path''), Some IsADirectoryError}
   \<and> fs (state_of (create_main_files s)) [''cleanup.py''] = fs s [''cleanup.py'']"
  by (simp add: render_cleanup_py create_main_files_result)

lemma req_lines: "split_on newline req_content = requirements"
  by (simp add: req_content_def requirements_def newline_def)

lemma install_dependencies_writes:
  assumes "fs s [''requirements.txt''] \<noteq> Some Dir"
  shows "fs (state_of (install_dependencies h s)) [''requirements.txt''] = Some (File req_content)"
proof -
  have w: "write_text [''requirements.txt''] req_content (fs s)
             = Inr ((fs s)([''requirements.txt''] \<mapsto> File req_content))"
    using assms by (auto simp add: write_text_def node_at_def split: option.splits node.splits)
  show ?thesis
  proof (cases "check_call h (pip_command h)")
    case (Inr rc)
    then show ?thesis
      by (simp add: install_dependencies_def parts_simple fs_op_def w print_def)
  next
    case (Inl e)
    then show ?thesis
      by (cases e) (simp_all add: install_dependencies_def parts_simple fs_op_def w print_def raise_def)
  qed
qed

text \<open>
  Claim C8. The manifest text has exactly the eight specifiers as its lines, in the order
  of the list, without a repetition, and the install stage leaves that text in
  \<^verbatim>\<open>requirements.txt\<close> whatever becomes of the installation (the path must not hold a
  directory, which cannot be opened for writing).
\<close>
theorem manifest_lines:
  "split_on newline req_content =
     [''requests>=2.31.0'', ''colorama>=0.4.6'', ''tqdm>=4.66.1'', ''pandas>=2.0.3'',
      ''openpyxl>=3.1.2'', ''python-dotenv>=1.0.0'', ''PyInquirer>=1.0.3'', ''tabulate>=0.9.0'']
   \<and> distinct (split_on newline req_content)
   \<and> (fs s [''requirements.txt''] \<noteq> Some Dir
        \<longrightarrow> fs (state_of (install_dependencies h s)) [''requirements.txt'']
              = Some (File req_content))"
  using install_dependencies_writes [of s h]
  by (simp add: req_lines) (simp add: requirements_def)

theorem manifest_lines_witness:
  "fs fresh_tree [''requirements.txt''] \<noteq> Some Dir
   \<and> fs (state_of (install_dependencies host_3_11 fresh_tree)) [''requirements.txt'']
       = Some (File req_content)
   \<and> split_on newline req_content =
     [''requests>=2.31.0'', ''colorama>=0.4.6'', ''tqdm>=4.66.1'', ''pandas>=2.0.3'',
      ''openpyxl>=3.1.2'', ''python-dotenv>=1.0.0'', ''PyInquirer>=1.0.3'', ''tabulate>=0.9.0'']"
proof -
  have h: "fs fresh_tree [''requirements.txt''] \<noteq> Some Dir" by (simp add: fresh_tree_def)
  note m = manifest_lines [of fresh_tree host_3_11]
  from m have a: "split_on newline req_content =
     [''requests>=2.31.0'', ''colorama>=0.4.6'', ''tqdm>=4.66.1'', ''pandas>=2.0.3'',
      ''openpyxl>=3.1.2'', ''python-dotenv>=1.0.0'', ''PyInquirer>=1.0.3'', ''tabulate>=0.9.0'']"
    by (rule conjunct1)
  from m have "fs fresh_tree [''requirements.txt''] \<noteq> Some Dir
        \<longrightarrow> fs (state_of (install_dependencies host_3_11 fresh_tree)) [''requirements.txt'']
              = Some (File req_content)"
    by (rule conjunct2 [OF conjunct2])
  with h have b: "fs (state_of (install_dependencies host_3_11 fresh_tree)) [''requirements.txt'']
              = Some (File req_content)" by (rule rev_mp)
  from h b a show ?thesis by (intro conjI)
qed

subsection \<open>The scaffolding stage on a given tree\<close>

lemma seeded_tree_ready:
  "\<forall>d \<in> set directories. \<forall>t. fs seeded_tree (parts d) \<noteq> Some (File t)"
  "\<forall>f \<in> set files. fs seeded_tree (parts f) \<noteq> Some Dir"
  "fs seeded_tree [''.gitignore''] \<noteq> Some Dir"
proof -
  have "list_all (\<lambda>p. p \<noteq> [''run.py'']) (map parts directories)"
    unfolding map_parts_directories by simp
  then have "\<forall>d \<in> set directories. parts d \<noteq> [''run.py'']"
    by (simp add: list_all_iff)
  then show "\<forall>d \<in> set directories. \<forall>t. fs seeded_tree (parts d) \<noteq> Some (File t)"
    by (simp add: seeded_tree_def)
  show "\<forall>f \<in> set files. fs seeded_tree (parts f) \<noteq> Some Dir"
    by (simp add: seeded_tree_def)
  show "fs seeded_tree [''.gitignore''] \<noteq> Some Dir"
    by (simp add: seeded_tree_def)
qed

text \<open>
  Counterexample to C6 as worded. In a base directory where \<^verbatim>\<open>src\<close> is a regular file,
  \<^verbatim>\<open>mkdir(parents=True, exist_ok=True)\<close> raises \<^verbatim>\<open>FileExistsError\<close> on the first planned
  directory: the stage ends there, \<^verbatim>\<open>src\<close> is still the file, and neither \<^verbatim>\<open>src/core\<close>
  nor \<^verbatim>\<open>README.md\<close> exists.
\<close>

theorem scaffolding_blocked_counterexample:
  "raised (create_project_structure blocked_tree) = Some FileExistsError
   \<and> fs (state_of (create_project_structure blocked_tree)) (parts ''src'') = Some (File ''notes'')
   \<and> fs (state_of (create_project_structure blocked_tree)) (parts ''src/core'') = None
   \<and> fs (state_of (create_project_structure blocked_tree)) (parts ''README.md'') = None"
proof -
  have m: "mkdir (parts ''src'') (fs blocked_tree) = Inl FileExistsError"
    by (simp add: mkdir_def parts_def blocked_tree_def)
  have "create_dir ''src'' (blocked_tree\<lparr>stdout := stdout blocked_tree
            @ [newline # ''[2/6] Creating project structure...'']\<rparr>)
        = Abort FileExistsError (blocked_tree\<lparr>stdout := stdout blocked_tree
            @ [newline # ''[2/6] Creating project structure...'']\<rparr>)"
    using m by (simp add: create_dir_result)
  then have "create_project_structure blocked_tree
        = Abort FileExistsError (blocked_tree\<lparr>stdout := stdout blocked_tree
            @ [newline # ''[2/6] Creating project structure...'']\<rparr>)"
    by (simp add: create_project_structure_def print_def directories_def for_each_Cons)
  then show ?thesis
    by (simp add: blocked_tree_def parts_def)
qed

text \<open>
  Claim C6, amended. Where no directory of the Directory Plan is held by a regular file, no file of
  the File Plan is held by a directory and \<^verbatim>\<open>.gitignore\<close> is not a directory (the cases
  in which the filesystem calls raise or skip), the scaffolding stage returns normally;
  afterwards each of the 17 planned directories is a directory, each of the 16 planned paths
  is a regular file, and every file and directory that existed before the stage, other than
  \<^verbatim>\<open>.gitignore\<close>, is what it was.
\<close>
theorem scaffolding_creates_plans:
  assumes "\<forall>d \<in> set directories. \<forall>t. fs s (parts d) \<noteq> Some (File t)"
      and "\<forall>f \<in> set files. fs s (parts f) \<noteq> Some Dir"
      and "fs s [''.gitignore''] \<noteq> Some Dir"
  shows "length directories = 17 \<and> length files = 16
         \<and> (\<exists>s'. create_project_structure s = Normal s'
               \<and> (\<forall>d \<in> set directories. fs s' (parts d) = Some Dir)
               \<and> (\<forall>f \<in> set files. \<exists>t. fs s' (parts f) = Some (File t))
               \<and> (\<forall>p n. fs s p = Some n \<and> p \<noteq> [''.gitignore''] \<longrightarrow> fs s' p = Some n))"
proof -
  have "length directories = 17" by (simp add: directories_def)
  moreover have "length files = 16" by (simp add: files_def)
  moreover from scaffold_ok [OF assms]
  have "\<exists>s'. create_project_structure s = Normal s'
               \<and> (\<forall>d \<in> set directories. fs s' (parts d) = Some Dir)
               \<and> (\<forall>f \<in> set files. \<exists>t. fs s' (parts f) = Some (File t))
               \<and> (\<forall>p n. fs s p = Some n \<and> p \<noteq> [''.gitignore''] \<longrightarrow> fs s' p = Some n)"
    by blast
  ultimately show ?thesis by blast
qed

theorem scaffolding_creates_plans_witness:
  "list_all (\<lambda>d. \<forall>t. fs seeded_tree (parts d) \<noteq> Some (File t)) directories
   \<and> list_all (\<lambda>f. fs seeded_tree (parts f) \<noteq> Some Dir) files
   \<and> fs seeded_tree [''.gitignore''] \<noteq> Some Dir
   \<and> fs seeded_tree [''run.py''] = Some (File ''# my own launcher'')
   \<and> (\<exists>s'. create_project_structure seeded_tree = Normal s'
          \<and> fs s' [''src'', ''core''] = Some Dir
          \<and> (\<exists>t. fs s' [''CHANGELOG.md''] = Some (File t))
          \<and> fs s' [''run.py''] = Some (File ''# my own launcher''))"
proof -
  have here: "fs seeded_tree [''run.py''] = Some (File ''# my own launcher'')"
    by (simp add: seeded_tree_def)
  from scaffolding_creates_plans [OF seeded_tree_ready]
  obtain s' where s': "create_project_structure seeded_tree = Normal s'"
    and d: "\<forall>d \<in> set directories. fs s' (parts d) = Some Dir"
    and f: "\<forall>f \<in> set files. \<exists>t. fs s' (parts f) = Some (File t)"
    and k: "\<forall>p n. fs seeded_tree p = Some n \<and> p \<noteq> [''.gitignore''] \<longrightarrow> fs s' p = Some n"
    by blast
  have "''src/core'' \<in> set directories" by (simp add: directories_def)
  with d have a: "fs s' (parts ''src/core'') = Some Dir" by blast
  have "''CHANGELOG.md'' \<in> set files" by (simp add: files_def)
  with f have b: "\<exists>t. fs s' (parts ''CHANGELOG.md'') = Some (File t)" by blast
  from k here have c: "fs s' [''run.py''] = Some (File ''# my own launcher'')" by simp
  from a b have "fs s' [''src'', ''core''] = Some Dir" "\<exists>t. fs s' [''CHANGELOG.md''] = Some (File t)"
    by (simp_all add: parts_def)
  with s' c have "\<exists>s'. create_project_structure seeded_tree = Normal s'
          \<and> fs s' [''src'', ''core''] = Some Dir
          \<and> (\<exists>t. fs s' [''CHANGELOG.md''] = Some (File t))
          \<and> fs s' [''run.py''] = Some (File ''# my own launcher'')" by blast
  with seeded_tree_ready here show ?thesis unfolding list_all_iff by blast
qed


lemma seq_Cons_NormalD:
  assumes "seq (c # cs) s = Normal s'"
  shows "\<exists>s1. c s = Normal s1 \<and> seq cs s1 = Normal s'"
  using assms by (cases "c s") auto

lemma print_NormalD: "print t s = Normal s' \<Longrightarrow> fs s' = fs s"
  by (auto simp add: print_def)

lemma create_file_there:
  assumes "create_file f s = Normal s'"
  shows "node_at (fs s') (parts f) \<noteq> None"
proof (cases "path_exists (fs s) (parts f)")
  case True
  with assms show ?thesis by (simp add: create_file_result path_exists_def)
next
  case False
  with assms obtain g where g: "touch (parts f) (fs s) = Inr g" "fs s' = g"
    by (auto simp add: create_file_result split: sum.splits)
  from g(1) False have "g = (fs s)(parts f \<mapsto> File [])"
    by (auto simp add: touch_def path_exists_def split: option.splits node.splits)
  with g(2) show ?thesis by (simp add: node_at_def)
qed

lemma frame_keeps_node:
  assumes "frame C {} s s'" and "node_at (fs s) p \<noteq> None"
  shows "node_at (fs s') p \<noteq> None"
  using assms unfolding frame_def node_at_def by (cases "p = []") (simp, metis empty_iff if_not_P)

lemma create_files_there:
  assumes "for_each fl create_file s = Normal s'" and "f \<in> set fl"
  shows "node_at (fs s') (parts f) \<noteq> None"
  using assms
proof (induction fl arbitrary: s)
  case Nil
  then show ?case by simp
next
  case (Cons x fl)
  from Cons.prems(1) obtain s1 where s1: "create_file x s = Normal s1"
    "for_each fl create_file s1 = Normal s'"
    by (auto simp add: for_each_Cons split: result.splits)
  show ?case
  proof (cases "f \<in> set fl")
    case True
    with Cons.IH s1(2) show ?thesis by blast
  next
    case False
    with Cons.prems(2) have "f = x" by simp
    with create_file_there [OF s1(1)] have a: "node_at (fs s1) (parts f) \<noteq> None" by simp
    have "frame (parts ` set fl) {} s1 (state_of (for_each fl create_file s1))"
      by (rule for_each_frame) (rule frame_mono [OF create_file_frame], auto)
    with s1(2) have "frame (parts ` set fl) {} s1 s'" by simp
    from frame_keeps_node [OF this a] show ?thesis .
  qed
qed

lemma files_exist_after:
  assumes "create_project_structure s = Normal s'" and "f \<in> set files"
  shows "fs s' (parts f) \<noteq> None"
proof -
  from assms(1) obtain sa where sa: "seq [for_each directories create_dir,
          for_each files create_file,
          fs_op (write_text (parts ''.gitignore'') gitignore_content),
          print (''  '' @ page_glyph @ '' Created: .gitignore''),
          print (check_mark @ '' Project structure created successfully!'')] sa = Normal s'"
    unfolding create_project_structure_def by (blast dest: seq_Cons_NormalD)
  then obtain sb where sb: "seq [for_each files create_file,
          fs_op (write_text (parts ''.gitignore'') gitignore_content),
          print (''  '' @ page_glyph @ '' Created: .gitignore''),
          print (check_mark @ '' Project structure created successfully!'')] sb = Normal s'"
    by (blast dest: seq_Cons_NormalD)
  then obtain sc where sc: "for_each files create_file sb = Normal sc"
    and rest: "seq [fs_op (write_text (parts ''.gitignore'') gitignore_content),
          print (''  '' @ page_glyph @ '' Created: .gitignore''),
          print (check_mark @ '' Project structure created successfully!'')] sc = Normal s'"
    by (blast dest: seq_Cons_NormalD)
  from rest obtain sd where sd: "fs_op (write_text [''.gitignore''] gitignore_content) sc = Normal sd"
    and rest': "seq [print (''  '' @ page_glyph @ '' Created: .gitignore''),
          print (check_mark @ '' Project structure created successfully!'')] sd = Normal s'"
    unfolding parts_gitignore by (blast dest: seq_Cons_NormalD)
  from rest' obtain se where se: "print (''  '' @ page_glyph @ '' Created: .gitignore'') sd = Normal se"
    and last: "seq [print (check_mark @ '' Project structure created successfully!'')] se = Normal s'"
    by (blast dest: seq_Cons_NormalD)
  from seq_Cons_NormalD [OF last] obtain sf
    where "print (check_mark @ '' Project structure created successfully!'') se = Normal sf"
      and "seq [] sf = Normal s'" by blast
  then have "print (check_mark @ '' Project structure created successfully!'') se = Normal s'"
    by simp
  with se have eq: "fs s' = fs sd" by (simp add: print_NormalD)
  from sd obtain g where g: "write_text [''.gitignore''] gitignore_content (fs sc) = Inr g" "fs sd = g"
    by (auto simp add: fs_op_def split: sum.splits)
  from write_text_effect [OF g(1)] g(2) have fsd: "fs sd = (fs sc)([''.gitignore''] \<mapsto> File gitignore_content)"
    by simp
  from create_files_there [OF sc assms(2)] files_not_dirs'(2) [OF assms(2)]
  have "fs sc (parts f) \<noteq> None" by (simp add: node_at_def)
  with files_not_dirs'(3) [OF assms(2)] show ?thesis
    by (simp add: eq fsd)
qed

lemma scaffold_keeps_file:
  assumes "f \<in> set files" and "fs s (parts f) \<noteq> None"
  shows "fs (state_of (create_project_structure s)) (parts f) = fs s (parts f)"
proof -
  from create_project_structure_frame [of s]
  have "fs (state_of (create_project_structure s)) (parts f) = fs s (parts f)
        \<or> (parts f \<in> plan_created \<and> fs s (parts f) = None) \<or> parts f \<in> {[''.gitignore'']}"
    unfolding frame_def by blast
  with assms(2) files_not_dirs'(3) [OF assms(1)] show ?thesis by auto
qed

text \<open>
  Claim C7. For a path of the File Plan, a file that exists with any content has the same
  content after the scaffolding stage, however the stage ends; and once the stage has
  returned normally, running it again leaves what the path holds unchanged.
\<close>
theorem placeholder_files_untouched:
  assumes "f \<in> set files"
  shows "(fs s (parts f) = Some (File t)
            \<longrightarrow> fs (state_of (create_project_structure s)) (parts f) = Some (File t))
         \<and> (\<forall>s1. create_project_structure s = Normal s1
            \<longrightarrow> fs (state_of (create_project_structure s1)) (parts f) = fs s1 (parts f))"
proof (intro conjI impI allI)
  assume "fs s (parts f) = Some (File t)"
  with scaffold_keeps_file [OF assms, of s]
  show "fs (state_of (create_project_structure s)) (parts f) = Some (File t)" by simp
next
  fix s1 assume "create_project_structure s = Normal s1"
  from files_exist_after [OF this assms] have "fs s1 (parts f) \<noteq> None" .
  then show "fs (state_of (create_project_structure s1)) (parts f) = fs s1 (parts f)"
    by (rule scaffold_keeps_file [OF assms])
qed

theorem placeholder_files_untouched_witness:
  "''CHANGELOG.md'' \<in> set files
   \<and> fs (seeded_tree\<lparr>fs := (fs seeded_tree)(parts ''CHANGELOG.md'' \<mapsto> File ''my notes'')\<rparr>)
        (parts ''CHANGELOG.md'') = Some (File ''my notes'')
   \<and> fs (state_of (create_project_structure
        (seeded_tree\<lparr>fs := (fs seeded_tree)(parts ''CHANGELOG.md'' \<mapsto> File ''my notes'')\<rparr>)))
        (parts ''CHANGELOG.md'') = Some (File ''my notes'')
   \<and> (\<exists>s1. create_project_structure seeded_tree = Normal s1
          \<and> fs (state_of (create_project_structure s1)) (parts ''CHANGELOG.md'')
              = fs s1 (parts ''CHANGELOG.md''))"
proof -
  let ?s = "seeded_tree\<lparr>fs := (fs seeded_tree)(parts ''CHANGELOG.md'' \<mapsto> File ''my notes'')\<rparr>"
  have m: "''CHANGELOG.md'' \<in> set files" by (simp add: files_def)
  have h: "fs ?s (parts ''CHANGELOG.md'') = Some (File ''my notes'')" by simp
  from placeholder_files_untouched [OF m, of ?s "''my notes''"] h
  have a: "fs (state_of (create_project_structure ?s)) (parts ''CHANGELOG.md'') = Some (File ''my notes'')"
    by blast
  from scaffold_ok [OF seeded_tree_ready] obtain s1
    where s1: "create_project_structure seeded_tree = Normal s1" by blast
  with placeholder_files_untouched [OF m, of seeded_tree]
  have b: "fs (state_of (create_project_structure s1)) (parts ''CHANGELOG.md'')
              = fs s1 (parts ''CHANGELOG.md'')" by blast
  from m h a s1 b show ?thesis by blast
qed

subsection \<open>The launcher, the install stage and the run\<close>

lemma fresh_tree_ready:
  "\<forall>d \<in> set directories. \<forall>t. fs fresh_tree (parts d) \<noteq> Some (File t)"
  "\<forall>f \<in> set files. fs fresh_tree (parts f) \<noteq> Some Dir"
  "fs fresh_tree [''.gitignore''] \<noteq> Some Dir"
  by (simp_all add: fresh_tree_def)

lemma plan_created_listed:
  "plan_created \<subseteq> set (map parts directories) \<union> set (map parts files)"
  unfolding plan_created_def using created_dirs_in_plan by auto

lemma no_src_app_in_plans:
  "[''src'', ''app''] @ q \<notin> set (map parts directories) \<union> set (map parts files)"
  unfolding map_parts_directories map_parts_files by simp

lemma scaffold_makes_no_src_app:
  assumes "fs s ([''src'', ''app''] @ q) = None"
  shows "fs (state_of (create_project_structure s)) ([''src'', ''app''] @ q) = None"
proof -
  from create_project_structure_frame [of s]
  have "fs (state_of (create_project_structure s)) ([''src'', ''app''] @ q) = fs s ([''src'', ''app''] @ q)
        \<or> [''src'', ''app''] @ q \<in> plan_created \<or> [''src'', ''app''] @ q \<in> {[''.gitignore'']}"
    unfolding frame_def by blast
  moreover have "[''src'', ''app''] @ q \<notin> plan_created"
    using plan_created_listed no_src_app_in_plans [of q] by blast
  ultimately show ?thesis using assms by auto
qed

text \<open>
  Claim C10. The launcher text that the main-files stage writes to \<^verbatim>\<open>run.py\<close> has the
  line \<^verbatim>\<open>from src.app.main import main\<close>, no path of the Directory Plan or the File Plan
  lies at or below \<^verbatim>\<open>src/app\<close>, and in the tree that the scaffolding stage makes in an
  empty base directory nothing exists at or below \<^verbatim>\<open>src/app\<close>.
\<close>
theorem launcher_import_target_absent:
  "''from src.app.main import main'' \<in> set (split_on newline run_py)
   \<and> fs (state_of (create_main_files (state_of (create_project_structure fresh_tree)))) [''run.py'']
       = Some (File run_py)
   \<and> filter (\<lambda>p. take 2 p = [''src'', ''app'']) (map parts (directories @ files)) = []
   \<and> (\<forall>q. fs (state_of (create_project_structure fresh_tree)) ([''src'', ''app''] @ q) = None)"
proof -
  from scaffold_ok [OF fresh_tree_ready] obtain s'
    where s': "create_project_structure fresh_tree = Normal s'"
      and f: "\<forall>f \<in> set files. \<exists>t. fs s' (parts f) = Some (File t)" by blast
  have "''run.py'' \<in> set files" by (simp add: files_def)
  with f have "\<exists>t. fs s' (parts ''run.py'') = Some (File t)" by blast
  then have "fs s' [''run.py''] \<noteq> Some Dir" by (auto simp add: parts_simple)
  then have a: "fs (state_of (create_main_files s')) [''run.py''] = Some (File run_py)"
    by (simp add: create_main_files_result)
  have b: "filter (\<lambda>p. take 2 p = [''src'', ''app'']) (map parts (directories @ files)) = []"
    unfolding map_append map_parts_directories map_parts_files by simp
  have c: "\<forall>q. fs (state_of (create_project_structure fresh_tree)) ([''src'', ''app''] @ q) = None"
    by (intro allI scaffold_makes_no_src_app) (simp add: fresh_tree_def)
  from run_py_import_line a b c s' show ?thesis by simp
qed


lemma write_requirements:
  assumes "fs s [''requirements.txt''] \<noteq> Some Dir"
  shows "write_text [''requirements.txt''] req_content (fs s)
           = Inr ((fs s)([''requirements.txt''] \<mapsto> File req_content))"
  using assms by (auto simp add: write_text_def node_at_def split: option.splits node.splits)

lemma install_dependencies_nonzero:
  assumes "run_process h (pip_command h) = Exited rc" and "rc \<noteq> 0"
    and "fs s [''requirements.txt''] \<noteq> Some Dir"
  shows "install_dependencies h s =
           Normal (s\<lparr>fs := (fs s)([''requirements.txt''] \<mapsto> File req_content),
                     stdout := stdout s @
                       [newline # ''[4/6] Installing dependencies...'',
                        cross_mark @ '' Failed to install dependencies: ''
                          @ str_exn h (CalledProcessError rc (pip_command h)),
                        ''Please install manually: pip install -r requirements.txt'']\<rparr>)"
proof -
  have c: "check_call h (pip_command h) = Inl (CalledProcessError rc (pip_command h))"
    using assms(1,2) by (simp add: check_call_def)
  show ?thesis
    by (simp add: install_dependencies_def parts_simple fs_op_def write_requirements [OF assms(3)]
          c print_def)
qed

lemma install_dependencies_not_started:
  assumes "run_process h (pip_command h) = NotStarted msg"
    and "fs s [''requirements.txt''] \<noteq> Some Dir"
  shows "install_dependencies h s =
           Abort (OSError msg)
             (s\<lparr>fs := (fs s)([''requirements.txt''] \<mapsto> File req_content),
                stdout := stdout s @ [newline # ''[4/6] Installing dependencies...'']\<rparr>)"
proof -
  have c: "check_call h (pip_command h) = Inl (OSError msg)"
    using assms(1) by (simp add: check_call_def)
  show ?thesis
    by (simp add: install_dependencies_def parts_simple fs_op_def write_requirements [OF assms(2)]
          c print_def raise_def)
qed

lemma drop_run_order: "drop 4 run_order = [Install, MainFiles, Documentation]"
  by (simp add: run_order_def)

text \<open>
  Counterexample to C2 as worded. When the subprocess cannot be started, \<^verbatim>\<open>check_call\<close>
  raises an \<^verbatim>\<open>OSError\<close>, which \<^verbatim>\<open>except subprocess.CalledProcessError\<close> does not catch:
  the stage prints its heading only and raises, and no later stage is begun.
\<close>
theorem install_not_started_counterexample:
  "raised (install_dependencies host_no_pip fresh_tree)
     = Some (OSError ''[Errno 2] No such file or directory'')
   \<and> stdout (state_of (install_dependencies host_no_pip fresh_tree))
     = [newline # ''[4/6] Installing dependencies...'']
   \<and> fst (run_stages host_no_pip [] (drop 4 run_order) fresh_tree) = [Install]"
proof -
  have r: "run_process host_no_pip (pip_command host_no_pip)
             = NotStarted ''[Errno 2] No such file or directory''"
    by (simp add: host_no_pip_def host_3_11_def)
  have f: "fs fresh_tree [''requirements.txt''] \<noteq> Some Dir" by (simp add: fresh_tree_def)
  note i = install_dependencies_not_started [OF r f]
  show ?thesis
    unfolding drop_run_order by (simp add: i) (simp add: fresh_tree_def)
qed

text \<open>
  Claim C2, amended. When the subprocess exits with a status other than zero (and the
  manifest path is not a directory), the install stage prints its heading, the error line
  that ends in the text of the exception, and the hint to install manually; it returns
  normally, and the main-files stage is begun next.
\<close>
theorem install_failure_is_reported:
  assumes "run_process h (pip_command h) = Exited rc" and "rc \<noteq> 0"
    and "fs s [''requirements.txt''] \<noteq> Some Dir"
  shows "install_dependencies h s =
           Normal (s\<lparr>fs := (fs s)([''requirements.txt''] \<mapsto> File req_content),
                     stdout := stdout s @
                       [newline # ''[4/6] Installing dependencies...'',
                        cross_mark @ '' Failed to install dependencies: ''
                          @ str_exn h (CalledProcessError rc (pip_command h)),
                        ''Please install manually: pip install -r requirements.txt'']\<rparr>)
         \<and> take 2 (fst (run_stages h rest (drop 4 run_order) s)) = [Install, MainFiles]"
proof -
  note i = install_dependencies_nonzero [OF assms]
  have "take 2 (fst (run_stages h rest (drop 4 run_order) s)) = [Install, MainFiles]"
    unfolding drop_run_order
    by (simp add: i create_main_files_result split: prod.splits)
  with i show ?thesis by simp
qed

theorem install_failure_is_reported_witness:
  "run_process host_3_11 (pip_command host_3_11) = Exited 1
   \<and> (1::int) \<noteq> 0
   \<and> fs fresh_tree [''requirements.txt''] \<noteq> Some Dir
   \<and> stdout (state_of (install_dependencies host_3_11 fresh_tree))
       = [newline # ''[4/6] Installing dependencies...'',
          cross_mark @ '' Failed to install dependencies: Command returned non-zero exit status 1.'',
          ''Please install manually: pip install -r requirements.txt'']
   \<and> raised (install_dependencies host_3_11 fresh_tree) = None
   \<and> take 2 (fst (run_stages host_3_11 [] (drop 4 run_order) fresh_tree)) = [Install, MainFiles]"
proof -
  have r: "run_process host_3_11 (pip_command host_3_11) = Exited 1"
    by (simp add: host_3_11_def)
  have n: "(1::int) \<noteq> 0" by simp
  have f: "fs fresh_tree [''requirements.txt''] \<noteq> Some Dir" by (simp add: fresh_tree_def)
  note w = install_failure_is_reported [OF r n f, of "[]"]
  have e: "str_exn host_3_11 (CalledProcessError 1 (pip_command host_3_11))
             = ''Command returned non-zero exit status 1.''"
    by (simp add: host_3_11_def example_str_exn_def str_int_def digit_def)
  have s: "stdout fresh_tree = []" by (simp add: fresh_tree_def)
  from w have a: "stdout (state_of (install_dependencies host_3_11 fresh_tree))
       = [newline # ''[4/6] Installing dependencies...'',
          cross_mark @ '' Failed to install dependencies: Command returned non-zero exit status 1.'',
          ''Please install manually: pip install -r requirements.txt'']"
    by (simp add: e s)
  from w have b: "raised (install_dependencies host_3_11 fresh_tree) = None" by simp
  from w have c: "take 2 (fst (run_stages host_3_11 [] (drop 4 run_order) fresh_tree)) = [Install, MainFiles]"
    by (rule conjunct2)
  from r n f a b c show ?thesis by (intro conjI)
qed


lemma run_stages_shape:
  assumes "xs \<noteq> []"
  shows "\<exists>n. 0 < n \<and> n \<le> length xs
           \<and> fst (run_stages h rest xs s) = take n xs
           \<and> snd (run_stages h rest xs s) = seq (map (exec_stage h rest) (take n xs)) s
           \<and> (n < length xs \<longrightarrow> raised (snd (run_stages h rest xs s)) \<noteq> None)"
  using assms
proof (induction xs arbitrary: s)
  case Nil
  then show ?case by simp
next
  case (Cons x xs)
  show ?case
  proof (cases "exec_stage h rest x s")
    case (Abort e s')
    then show ?thesis by (intro exI [of _ 1]) simp
  next
    case (Normal s')
    show ?thesis
    proof (cases "xs = []")
      case True
      with Normal show ?thesis by (intro exI [of _ 1]) simp
    next
      case False
      from Cons.IH [OF False, of s'] obtain n where n: "0 < n" "n \<le> length xs"
        "fst (run_stages h rest xs s') = take n xs"
        "snd (run_stages h rest xs s') = seq (map (exec_stage h rest) (take n xs)) s'"
        "n < length xs \<longrightarrow> raised (snd (run_stages h rest xs s')) \<noteq> None"
        by blast
      with Normal show ?thesis
        by (intro exI [of _ "Suc n"]) (simp add: split_beta)
    qed
  qed
qed

lemma run_below_3_7:
  "fst (run host_3_6 [] fresh_tree) = [Banner, CheckVersion]"
  "raised (snd (run host_3_6 [] fresh_tree)) = Some (SystemExit 1)"
proof -
  obtain t where b: "print_banner fresh_tree = Normal (fresh_tree\<lparr>stdout := stdout fresh_tree @ [t]\<rparr>)"
    using print_banner_normal by blast
  have low: "major (sys_version_info host_3_6) < 3
      \<or> (major (sys_version_info host_3_6) = 3 \<and> minor (sys_version_info host_3_6) < 7)"
    by (simp add: host_3_6_def host_3_11_def)
  note c = check_python_version_below [OF low]
  show "fst (run host_3_6 [] fresh_tree) = [Banner, CheckVersion]"
    by (simp add: run_def run_order_def b c)
  show "raised (snd (run host_3_6 [] fresh_tree)) = Some (SystemExit 1)"
    by (simp add: run_def run_order_def b c)
qed

text \<open>
  Counterexample to C5 as worded. On a host below 3.7 the run begins the banner and the
  version check only, not the seven operations.
\<close>
theorem run_stops_at_version_check_counterexample:
  "fst (run host_3_6 [] fresh_tree) = [Banner, CheckVersion]
   \<and> fst (run host_3_6 [] fresh_tree) \<noteq> run_order"
  by (simp add: run_below_3_7 run_order_def)

text \<open>
  Claim C5, amended. There are seven stages, all different. A run begins the first \<open>n\<close>
  of them for some \<open>n\<close> of at least one, in the fixed order and each once; its result is
  that of executing these in sequence, each on the state that the one before left; and
  where \<open>n\<close> is less than seven, the last stage begun has raised.
\<close>
theorem run_begins_stages_in_order:
  "length run_order = 7 \<and> distinct run_order
   \<and> (\<exists>n. 0 < n \<and> n \<le> length run_order
          \<and> fst (run h rest s) = take n run_order
          \<and> snd (run h rest s) = seq (map (exec_stage h rest) (take n run_order)) s
          \<and> (n < length run_order \<longrightarrow> raised (snd (run h rest s)) \<noteq> None))"
proof -
  have "run_order \<noteq> []" by (simp add: run_order_def)
  from run_stages_shape [OF this, of h rest s]
  have "\<exists>n. 0 < n \<and> n \<le> length run_order
          \<and> fst (run h rest s) = take n run_order
          \<and> snd (run h rest s) = seq (map (exec_stage h rest) (take n run_order)) s
          \<and> (n < length run_order \<longrightarrow> raised (snd (run h rest s)) \<noteq> None)"
    by (simp add: run_def)
  moreover have "length run_order = 7" "distinct run_order" by (simp_all add: run_order_def)
  ultimately show ?thesis by blast
qed

theorem run_begins_stages_in_order_witness:
  "fst (run host_3_6 [] fresh_tree) = take 2 run_order
   \<and> (2::nat) < length run_order
   \<and> raised (snd (run host_3_6 [] fresh_tree)) \<noteq> None"
proof -
  from run_begins_stages_in_order [of host_3_6 "[]" fresh_tree]
  obtain n where n: "n \<le> length run_order" "fst (run host_3_6 [] fresh_tree) = take n run_order"
    "n < length run_order \<longrightarrow> raised (snd (run host_3_6 [] fresh_tree)) \<noteq> None"
    and len: "length run_order = 7"
    by blast
  from n(2) have "take n run_order = [Banner, CheckVersion]" by (simp add: run_below_3_7(1))
  then have "length (take n run_order) = length [Banner, CheckVersion]" by (rule arg_cong)
  with n(1) have two: "n = 2" by simp
  with n(3) len have "raised (snd (run host_3_6 [] fresh_tree)) \<noteq> None" by simp
  with n(2) two len show ?thesis by simp
qed

lemma run_py_not_seed: "run_py \<noteq> ''# my own launcher''"
proof
  assume "run_py = ''# my own launcher''"
  with run_py_import_line
  have "''from src.app.main import main'' \<in> set (split_on newline ''# my own launcher'')" by simp
  then show False by (simp add: newline_def)
qed

text \<open>
  Claim C4. The configuration stage changes no file, whatever the tree, and the main-files
  stage never changes \<^verbatim>\<open>cleanup.py\<close>. On a host at 3.11 and a base directory where \<^verbatim>\<open>run.py\<close> was written before,
  the run ends in the configuration stage with \<^verbatim>\<open>NameError\<close>; \<^verbatim>\<open>run.py\<close> still holds the
  earlier text, which is not the launcher text, and the two JSON files, the environment
  template, the cleanup script and the README are the empty placeholders of the
  scaffolding stage.
\<close>
theorem templated_files_not_overwritten:
  "(\<forall>h s. fs (state_of (create_config_files h s)) = fs s)
   \<and> (\<forall>s. fs (state_of (create_main_files s)) [''cleanup.py''] = fs s [''cleanup.py''])
   \<and> (\<exists>s'. run host_3_11 [] seeded_tree
            = ([Banner, CheckVersion, Structure, Config], Abort (NameError ''json'') s')
        \<and> fs s' [''run.py''] = Some (File ''# my own launcher'')
        \<and> Some (File ''# my own launcher'') \<noteq> Some (File run_py)
        \<and> fs s' [''config'', ''settings.json''] = Some (File [])
        \<and> fs s' [''config'', ''api_config.json''] = Some (File [])
        \<and> fs s' [''.env.example''] = Some (File [])
        \<and> fs s' [''cleanup.py''] = Some (File [])
        \<and> fs s' [''README.md''] = Some (File []))"
proof -
  have stage3: "\<forall>h s. fs (state_of (create_config_files h s)) = fs s"
    by (simp add: create_config_files_raises)
  have stage5: "\<forall>s. fs (state_of (create_main_files s)) [''cleanup.py''] = fs s [''cleanup.py'']"
    by (simp add: create_main_files_result)
  obtain t where b: "print_banner seeded_tree = Normal (seeded_tree\<lparr>stdout := stdout seeded_tree @ [t]\<rparr>)"
    using print_banner_normal by blast
  define sb where "sb = seeded_tree\<lparr>stdout := stdout seeded_tree @ [t]\<rparr>"
  have high: "\<not> (major (sys_version_info host_3_11) < 3
      \<or> (major (sys_version_info host_3_11) = 3 \<and> minor (sys_version_info host_3_11) < 7))"
    by (simp add: host_3_11_def)
  define sc where "sc = sb\<lparr>stdout := stdout sb @ [''[1/6] Checking Python version...'',
                 check_mark @ '' Python '' @ str_int (major (sys_version_info host_3_11)) @ ''.''
                 @ str_int (minor (sys_version_info host_3_11)) @ '' detected'']\<rparr>"
  have c: "check_python_version host_3_11 sb = Normal sc"
    unfolding sc_def by (rule check_python_version_ok [OF high])
  have fsc: "fs sc = fs seeded_tree" by (simp add: sc_def sb_def)
  have ready: "\<forall>d \<in> set directories. \<forall>t. fs sc (parts d) \<noteq> Some (File t)"
    "\<forall>f \<in> set files. fs sc (parts f) \<noteq> Some Dir"
    "fs sc [''.gitignore''] \<noteq> Some Dir"
    using seeded_tree_ready by (simp_all add: fsc)
  from scaffold_ok [OF ready] obtain sd where d: "create_project_structure sc = Normal sd"
    and new: "\<forall>f \<in> set files. fs sc (parts f) = None \<longrightarrow> fs sd (parts f) = Some (File [])"
    and keep: "\<forall>p n. fs sc p = Some n \<and> p \<noteq> [''.gitignore''] \<longrightarrow> fs sd p = Some n"
    by blast
  define se where "se = sd\<lparr>stdout := stdout sd @ [newline # ''[3/6] Creating configuration files...'']\<rparr>"
  have e: "create_config_files host_3_11 sd = Abort (NameError ''json'') se"
    by (simp add: create_config_files_raises se_def)
  have r: "run host_3_11 [] seeded_tree
            = ([Banner, CheckVersion, Structure, Config], Abort (NameError ''json'') se)"
    using b c d e by (simp add: run_def run_order_def sb_def)
  have fse: "fs se = fs sd" by (simp add: se_def)
  have k: "fs se [''run.py''] = Some (File ''# my own launcher'')"
    using keep by (simp add: fse fsc seeded_tree_def)
  have empty: "fs se (parts f) = Some (File [])"
    if "f \<in> set files" "fs seeded_tree (parts f) = None" for f
    using new that by (simp add: fse fsc)
  have e1: "fs se (parts ''config/settings.json'') = Some (File [])"
    by (rule empty) (simp_all add: files_def seeded_tree_def parts_def)
  have e2: "fs se (parts ''config/api_config.json'') = Some (File [])"
    by (rule empty) (simp_all add: files_def seeded_tree_def parts_def)
  have e3: "fs se (parts ''.env.example'') = Some (File [])"
    by (rule empty) (simp_all add: files_def seeded_tree_def parts_def)
  have e4: "fs se (parts ''cleanup.py'') = Some (File [])"
    by (rule empty) (simp_all add: files_def seeded_tree_def parts_def)
  have e5: "fs se (parts ''README.md'') = Some (File [])"
    by (rule empty) (simp_all add: files_def seeded_tree_def parts_def)
  from e1 e2 e3 e4 e5 have es: "fs se [''config'', ''settings.json''] = Some (File [])"
    "fs se [''config'', ''api_config.json''] = Some (File [])"
    "fs se [''.env.example''] = Some (File [])"
    "fs se [''cleanup.py''] = Some (File [])"
    "fs se [''README.md''] = Some (File [])"
    by (simp_all add: parts_def)
  have ne: "Some (File ''# my own launcher'') \<noteq> Some (File run_py)"
    using run_py_not_seed by simp
  from r k ne es have "\<exists>s'. run host_3_11 [] seeded_tree
            = ([Banner, CheckVersion, Structure, Config], Abort (NameError ''json'') s')
        \<and> fs s' [''run.py''] = Some (File ''# my own launcher'')
        \<and> Some (File ''# my own launcher'') \<noteq> Some (File run_py)
        \<and> fs s' [''config'', ''settings.json''] = Some (File [])
        \<and> fs s' [''config'', ''api_config.json''] = Some (File [])
        \<and> fs s' [''.env.example''] = Some (File [])
        \<and> fs s' [''cleanup.py''] = Some (File [])
        \<and> fs s' [''README.md''] = Some (File [])" by blast
  with stage3 stage5 show ?thesis by (intro conjI)
qed

end
